theory Spec2Isabelle
  imports Main
begin

section \<open>repyhelper.py: translation of Repy files into importable Python modules\<close>

text \<open>
  A shallow embedding of \<^verbatim>\<open>repyhelper.py\<close> (Python 2, POSIX paths).  Python byte strings
  are \<^typ>\<open>string\<close>; an exception is the \<open>Inl\<close> branch of a sum; the file system, the
  clock and the log of system calls are an explicit \<open>world\<close> that every operation
  threads; module globals (\<^verbatim>\<open>sys.path\<close>, \<^verbatim>\<open>_importcachedir\<close>, \<^verbatim>\<open>shared_context\<close>) and
  the object heap are a second record.
\<close>

subsection \<open>Python string methods\<close>

type_synonym path = string

definition nl :: string where
  "nl = [CHR 0x0A]"

definition quote :: string where
  "quote = [CHR 0x27]"

text \<open>\<^verbatim>\<open>s.startswith(p)\<close>.\<close>

definition startswith :: "string \<Rightarrow> string \<Rightarrow> bool" where
  "startswith s p = (take (length p) s = p)"

text \<open>\<^verbatim>\<open>s.endswith(p)\<close>.\<close>

definition endswith :: "string \<Rightarrow> string \<Rightarrow> bool" where
  "endswith s p = (length p \<le> length s \<and> drop (length s - length p) s = p)"

text \<open>The characters \<^verbatim>\<open>str.strip()\<close> removes and C's \<^verbatim>\<open>isspace\<close> accepts:
  space, tab, line feed, vertical tab, form feed, carriage return.\<close>

definition py_isspace :: "char \<Rightarrow> bool" where
  "py_isspace c = (c = CHR 0x20 \<or> c = CHR 0x09 \<or> c = CHR 0x0A \<or> c = CHR 0x0B
     \<or> c = CHR 0x0C \<or> c = CHR 0x0D)"

definition lstrip :: "string \<Rightarrow> string" where
  "lstrip s = dropWhile py_isspace s"

definition rstrip :: "string \<Rightarrow> string" where
  "rstrip s = rev (dropWhile py_isspace (rev s))"

definition strip :: "string \<Rightarrow> string" where
  "strip s = lstrip (rstrip s)"

text \<open>\<^verbatim>\<open>s.rstrip('/')\<close>.\<close>

definition rstrip_slash :: "string \<Rightarrow> string" where
  "rstrip_slash s = rev (dropWhile (\<lambda>c. c = CHR ''/'') (rev s))"

text \<open>\<^verbatim>\<open>s.replace('.', '_')\<close>.\<close>

definition replace_dots :: "string \<Rightarrow> string" where
  "replace_dots s = map (\<lambda>c. if c = CHR ''.'' then CHR ''_'' else c) s"

text \<open>\<^verbatim>\<open>s.split('/')\<close>: the pieces between slashes; never the empty list.\<close>

fun split_slash :: "string \<Rightarrow> string list" where
  "split_slash [] = [[]]"
| "split_slash (c # cs) =
     (if c = CHR ''/'' then [] # split_slash cs
      else (case split_slash cs of [] \<Rightarrow> [[c]] | p # ps \<Rightarrow> (c # p) # ps))"

text \<open>\<^verbatim>\<open>'/'.join(comps)\<close>.\<close>

fun join_slash :: "string list \<Rightarrow> string" where
  "join_slash [] = []"
| "join_slash [c] = c"
| "join_slash (c # cs) = c @ ''/'' @ join_slash cs"

text \<open>\<^verbatim>\<open>fh.readlines()\<close> on a file holding \<open>s\<close>: the lines, each with its line feed,
  the last one without when the file does not end in one.\<close>

fun readlines :: "string \<Rightarrow> string list" where
  "readlines [] = []"
| "readlines (c # cs) =
     (if c = CHR 0x0A then [c] # readlines cs
      else (case readlines cs of [] \<Rightarrow> [[c]] | l # ls \<Rightarrow> (c # l) # ls))"

subsection \<open>posixpath\<close>

text \<open>\<^verbatim>\<open>os.path.split\<close>: \<^verbatim>\<open>i = p.rfind('/') + 1; head, tail = p[:i], p[i:]\<close>, and the
  head loses its trailing slashes unless it consists of slashes only.\<close>

definition os_path_basename :: "path \<Rightarrow> path" where
  "os_path_basename p = rev (takeWhile (\<lambda>c. c \<noteq> CHR ''/'') (rev p))"

definition os_path_dirname :: "path \<Rightarrow> path" where
  "os_path_dirname p =
     (let head = rev (dropWhile (\<lambda>c. c \<noteq> CHR ''/'') (rev p))
      in if head \<noteq> [] \<and> head \<noteq> replicate (length head) (CHR ''/'')
         then rstrip_slash head else head)"

definition os_path_split :: "path \<Rightarrow> path \<times> path" where
  "os_path_split p = (os_path_dirname p, os_path_basename p)"

definition os_path_join :: "path \<Rightarrow> path \<Rightarrow> path" where
  "os_path_join a b =
     (if startswith b ''/'' then b
      else if a = [] \<or> endswith a ''/'' then a @ b
      else a @ ''/'' @ b)"

text \<open>The loop of \<^verbatim>\<open>posixpath.normpath\<close> over the components; \<open>acc\<close> is
  \<^verbatim>\<open>new_comps\<close>.\<close>

fun norm_comps :: "bool \<Rightarrow> string list \<Rightarrow> string list \<Rightarrow> string list" where
  "norm_comps initial acc [] = acc"
| "norm_comps initial acc (part # comps) =
     (if part = [] \<or> part = ''.'' then norm_comps initial acc comps
      else if part \<noteq> ''..'' \<or> (\<not> initial \<and> acc = []) \<or> (acc \<noteq> [] \<and> last acc = ''..'')
        then norm_comps initial (acc @ [part]) comps
      else if acc \<noteq> [] then norm_comps initial (butlast acc) comps
      else norm_comps initial acc comps)"

definition os_path_normpath :: "path \<Rightarrow> path" where
  "os_path_normpath p =
     (if p = [] then ''.''
      else
        let initial_slashes =
              (if startswith p ''/'' then
                 (if startswith p ''//'' \<and> \<not> startswith p ''///'' then 2 else 1)
               else (0::nat));
            comps = norm_comps (initial_slashes \<noteq> 0) [] (split_slash p);
            q = replicate initial_slashes (CHR ''/'') @ join_slash comps
        in if q = [] then ''.'' else q)"

definition os_path_isabs :: "path \<Rightarrow> bool" where
  "os_path_isabs p = startswith p ''/''"

subsection \<open>Errors, files and the world\<close>

text \<open>The exceptions the module raises or lets through.\<close>

datatype error = TranslationError | ValueError | TypeError | IOError | OSError | IndexError

text \<open>A regular file: its bytes, its \<^verbatim>\<open>st_mtime\<close> and whether this process may read it.\<close>

record regfile =
  content :: string
  mtime :: int
  readable :: bool

text \<open>The system calls the module makes, each on an absolute normalised path.\<close>

datatype event = Stat path | OpenRead path | OpenWrite path | Write path | Remove path
  | Makedirs path

text \<open>
  The operating system as the module sees it.  \<open>files\<close> and \<open>dirs\<close> are keyed by absolute
  normalised paths; \<open>clock\<close> is the time a write stamps on a file; \<open>unwritable\<close> are the
  paths \<^verbatim>\<open>open(p, "w")\<close> refuses, \<open>unremovable\<close> those \<^verbatim>\<open>os.remove\<close> refuses, \<open>space\<close>
  the bytes the device still takes before a write raises \<^verbatim>\<open>IOError\<close>; \<open>trace\<close> logs every
  call.
\<close>

record world =
  files :: "path \<rightharpoonup> regfile"
  dirs :: "path set"
  cwd :: path
  clock :: int
  unwritable :: "path set"
  unremovable :: "path set"
  space :: nat
  trace :: "event list"

definition emit :: "event \<Rightarrow> world \<Rightarrow> world" where
  "emit e w = w\<lparr>trace := trace w @ [e]\<rparr>"

text \<open>\<^verbatim>\<open>os.path.abspath\<close>: \<^verbatim>\<open>normpath(path if isabs(path) else join(getcwd(), path))\<close>.\<close>

definition os_path_abspath :: "world \<Rightarrow> path \<Rightarrow> path" where
  "os_path_abspath w p =
     os_path_normpath (if os_path_isabs p then p else os_path_join (cwd w) p)"

definition os_path_isfile :: "path \<Rightarrow> world \<Rightarrow> bool \<times> world" where
  "os_path_isfile p w =
     (let a = os_path_abspath w p in (files w a \<noteq> None, emit (Stat a) w))"

definition os_path_isdir :: "path \<Rightarrow> world \<Rightarrow> bool \<times> world" where
  "os_path_isdir p w =
     (let a = os_path_abspath w p in (a \<in> dirs w, emit (Stat a) w))"

text \<open>\<^verbatim>\<open>os.stat(p).st_mtime\<close>; \<^verbatim>\<open>OSError\<close> when nothing is there.  The module only stats
  paths that \<^verbatim>\<open>isfile\<close> accepted, so directories have no time stamp in the model.\<close>

definition os_stat_mtime :: "path \<Rightarrow> world \<Rightarrow> (error + int) \<times> world" where
  "os_stat_mtime p w =
     (let a = os_path_abspath w p
      in (case files w a of None \<Rightarrow> Inl OSError | Some f \<Rightarrow> Inr (mtime f), emit (Stat a) w))"

text \<open>\<^verbatim>\<open>open(p, "r")\<close> followed by reading the file to its end: \<^verbatim>\<open>IOError\<close> when the
  path is no regular file or may not be read.\<close>

definition read_file :: "path \<Rightarrow> world \<Rightarrow> (error + string) \<times> world" where
  "read_file p w =
     (let a = os_path_abspath w p
      in (case files w a of
            None \<Rightarrow> Inl IOError
          | Some f \<Rightarrow> if readable f then Inr (content f) else Inl IOError,
          emit (OpenRead a) w))"

subsection \<open>Constants of the module\<close>

definition TRANSLATION_TAGLINE :: string where
  "TRANSLATION_TAGLINE = ''### Automatically generated by repyhelper.py ###''"

definition WARNING_LABEL :: string where
  "WARNING_LABEL =
     nl @ ''### THIS FILE WILL BE OVERWRITTEN!'' @ nl
     @ ''### DO NOT MAKE CHANGES HERE, INSTEAD EDIT THE ORIGINAL SOURCE FILE'' @ nl
     @ ''###'' @ nl
     @ ''### If changes to the src aren't propagating here, try manually deleting this file. ''
     @ nl
     @ ''### Deleting this file forces regeneration of a repy translation'' @ nl
     @ nl"

definition ENCODING_STRING :: string where
  "ENCODING_STRING = ''# -*- coding: utf-8 -*-''"

subsection \<open>The staleness check\<close>

text \<open>\<^verbatim>\<open>except IOError, e: raise TranslationError(...)\<close>: any other exception passes.\<close>

definition except_IOError :: "error \<Rightarrow> error" where
  "except_IOError e = (if e = IOError then TranslationError else e)"

text \<open>\<^verbatim>\<open>fh.readline()\<close> for the \<open>n\<close>-th line: the empty string at the end of the file.\<close>

definition readline :: "string list \<Rightarrow> nat \<Rightarrow> string" where
  "readline ls n = (if n < length ls then ls ! n else [])"

text \<open>The loop \<^verbatim>\<open>current_line = ''; for line in fh: current_line = line\<close> after two
  \<^verbatim>\<open>readline\<close> calls: the last of the remaining lines, or the empty string.\<close>

definition last_line_of :: "string list \<Rightarrow> string" where
  "last_line_of ls = (if drop 2 ls = [] then [] else last (drop 2 ls))"

text \<open>The test of lines 188 to 191: the file was not written by this module, in the
  current layout or in the earlier one that had the tag on the first line.\<close>

definition not_generated :: "string \<Rightarrow> string \<Rightarrow> bool" where
  "not_generated first_line second_line =
     ((\<not> startswith first_line ENCODING_STRING \<or> \<not> startswith second_line TRANSLATION_TAGLINE)
      \<and> \<not> startswith first_line TRANSLATION_TAGLINE)"

text \<open>Lines 205 to 212: the artifact is kept when the source is strictly older.\<close>

definition compare_mtimes :: "path \<Rightarrow> path \<Rightarrow> world \<Rightarrow> (error + bool) \<times> world" where
  "compare_mtimes repyfilename generatedfile w3 =
     (case os_stat_mtime repyfilename w3 of
        (Inl e, w4) \<Rightarrow> (Inl e, w4)
      | (Inr repy_mtime, w4) \<Rightarrow>
          (case os_stat_mtime generatedfile w4 of
             (Inl e, w5) \<Rightarrow> (Inl e, w5)
           | (Inr gen_mtime, w5) \<Rightarrow>
               (if repy_mtime < gen_mtime then (Inr False, w5) else (Inr True, w5))))"

text \<open>Lines 186 to 212, on the text read from the artifact.\<close>

definition judge_artifact :: "path \<Rightarrow> path \<Rightarrow> string \<Rightarrow> world \<Rightarrow> (error + bool) \<times> world" where
  "judge_artifact repyfilename generatedfile text w3 =
     (let ls = readlines text;
          first_line = rstrip (readline ls 0);
          second_line = rstrip (readline ls 1);
          last_line = last_line_of ls
      in if not_generated first_line second_line then (Inl TranslationError, w3)
         else if \<not> startswith last_line TRANSLATION_TAGLINE then (Inr True, w3)
         else
           (let old_translation_path = strip (drop (length TRANSLATION_TAGLINE) first_line);
                generated_abs_path = os_path_abspath w3 repyfilename
            in if old_translation_path \<noteq> generated_abs_path then (Inr True, w3)
               else compare_mtimes repyfilename generatedfile w3))"

text \<open>\<^verbatim>\<open>_translation_is_needed(repyfilename, generatedfile)\<close>: \<open>Inr True\<close> to
  regenerate, \<open>Inr False\<close> to keep the artifact.\<close>

definition translation_is_needed :: "path \<Rightarrow> path \<Rightarrow> world \<Rightarrow> (error + bool) \<times> world" where
  "translation_is_needed repyfilename generatedfile w0 =
     (case os_path_isfile repyfilename w0 of
        (src_isfile, w1) \<Rightarrow>
          (if \<not> src_isfile then (Inl TranslationError, w1)
           else
             (case os_path_isfile generatedfile w1 of
                (gen_isfile, w2) \<Rightarrow>
                  (if \<not> gen_isfile then (Inr True, w2)
                   else
                     (case read_file generatedfile w2 of
                        (Inl e, w3) \<Rightarrow> (Inl (except_IOError e), w3)
                      | (Inr text, w3) \<Rightarrow>
                          judge_artifact repyfilename generatedfile text w3)))))"

subsection \<open>Writing: open, write, remove, makedirs\<close>

text \<open>\<^verbatim>\<open>open(p, "w")\<close>: creates or truncates the file and stamps it; \<^verbatim>\<open>IOError\<close> when the
  path is refused, is a directory, or its directory does not exist.  The handle is the
  absolute path.\<close>

definition open_write :: "path \<Rightarrow> world \<Rightarrow> (error + path) \<times> world" where
  "open_write p w =
     (let a = os_path_abspath w p;
          w1 = emit (OpenWrite a) w
      in if a \<in> unwritable w \<or> a \<in> dirs w \<or> os_path_dirname a \<notin> dirs w
         then (Inl IOError, w1)
         else (Inr a,
               w1\<lparr>files := (files w)(a \<mapsto>
                     \<lparr>content = [], mtime = clock w,
                      readable = (case files w a of None \<Rightarrow> True | Some f \<Rightarrow> readable f)\<rparr>)\<rparr>))"

text \<open>\<^verbatim>\<open>fh.write(s)\<close> on the handle \<open>a\<close>: appends, or raises \<^verbatim>\<open>IOError\<close> and writes nothing
  when the device has no room for \<open>s\<close>.  A file removed while open takes the bytes but is
  no longer in the name space.\<close>

definition fh_write :: "path \<Rightarrow> string \<Rightarrow> world \<Rightarrow> (error + unit) \<times> world" where
  "fh_write a s w =
     (let w1 = emit (Write a) w
      in if space w < length s then (Inl IOError, w1)
         else (Inr (),
               w1\<lparr>space := space w - length s,
                  files := (case files w a of
                              None \<Rightarrow> files w
                            | Some f \<Rightarrow>
                                (files w)(a \<mapsto> f\<lparr>content := content f @ s, mtime := clock w\<rparr>))\<rparr>))"

text \<open>\<^verbatim>\<open>os.remove(p)\<close>: \<^verbatim>\<open>OSError\<close> when there is no such file or the removal is refused.\<close>

definition os_remove :: "path \<Rightarrow> world \<Rightarrow> (error + unit) \<times> world" where
  "os_remove p w =
     (let a = os_path_abspath w p;
          w1 = emit (Remove a) w
      in if files w a = None \<or> a \<in> unremovable w then (Inl OSError, w1)
         else (Inr (), w1\<lparr>files := (files w)(a := None)\<rparr>))"

text \<open>A path and every directory above it.\<close>

function ancestors :: "path \<Rightarrow> path list" where
  "ancestors p =
     (let d = os_path_dirname p in if length d < length p then p # ancestors d else [p])"
  by pat_completeness auto
termination
  by (relation "measure length") auto

text \<open>\<^verbatim>\<open>os.makedirs(p)\<close>: creates \<open>p\<close> and the directories above it; \<^verbatim>\<open>OSError\<close> when \<open>p\<close>
  is there already or a regular file is in the way.\<close>

definition os_makedirs :: "path \<Rightarrow> world \<Rightarrow> (error + unit) \<times> world" where
  "os_makedirs p w =
     (let a = os_path_abspath w p;
          w1 = emit (Makedirs a) w
      in if a \<in> dirs w \<or> (\<exists>q \<in> set (ancestors a). files w q \<noteq> None) then (Inl OSError, w1)
         else (Inr (), w1\<lparr>dirs := dirs w \<union> set (ancestors a)\<rparr>))"

subsection \<open>The print statement\<close>

text \<open>An open output file: its handle and the \<^verbatim>\<open>softspace\<close> flag of the file object.\<close>

record outfh =
  fh_path :: path
  softspace :: bool

text \<open>One expression of \<^verbatim>\<open>print >> fh, ...\<close> (the byte code \<^verbatim>\<open>PRINT_ITEM_TO\<close>): a space
  first when \<^verbatim>\<open>softspace\<close> is set, then the string; \<^verbatim>\<open>softspace\<close> is set again unless the
  string ends in white space other than a blank.\<close>

definition print_item :: "string \<Rightarrow> outfh \<Rightarrow> world \<Rightarrow> (error + outfh) \<times> world" where
  "print_item s fh w =
     (case (if softspace fh then fh_write (fh_path fh) '' '' w else (Inr (), w)) of
        (Inl e, w1) \<Rightarrow> (Inl e, w1)
      | (Inr u, w1) \<Rightarrow>
          (case fh_write (fh_path fh) s w1 of
             (Inl e, w2) \<Rightarrow> (Inl e, w2)
           | (Inr u', w2) \<Rightarrow>
               (Inr (fh\<lparr>softspace := (s = [] \<or> \<not> py_isspace (last s) \<or> last s = CHR 0x20)\<rparr>),
                w2)))"

text \<open>The end of a print statement without a trailing comma (\<^verbatim>\<open>PRINT_NEWLINE_TO\<close>).\<close>

definition print_newline :: "outfh \<Rightarrow> world \<Rightarrow> (error + outfh) \<times> world" where
  "print_newline fh w =
     (case fh_write (fh_path fh) nl w of
        (Inl e, w1) \<Rightarrow> (Inl e, w1)
      | (Inr u, w1) \<Rightarrow> (Inr (fh\<lparr>softspace := False\<rparr>), w1))"

fun print_items :: "string list \<Rightarrow> outfh \<Rightarrow> world \<Rightarrow> (error + outfh) \<times> world" where
  "print_items [] fh w = (Inr fh, w)"
| "print_items (s # ss) fh w =
     (case print_item s fh w of
        (Inl e, w1) \<Rightarrow> (Inl e, w1)
      | (Inr fh1, w1) \<Rightarrow> print_items ss fh1 w1)"

text \<open>\<^verbatim>\<open>print >> fh, a, b\<close> is \<open>Print [a, b]\<close>; \<^verbatim>\<open>print >> fh, a,\<close> with its trailing comma
  is \<open>PrintComma [a]\<close>.\<close>

datatype print_stmt = Print "string list" | PrintComma "string list"

fun exec_print :: "print_stmt \<Rightarrow> outfh \<Rightarrow> world \<Rightarrow> (error + outfh) \<times> world" where
  "exec_print (Print items) fh w =
     (case print_items items fh w of
        (Inl e, w1) \<Rightarrow> (Inl e, w1)
      | (Inr fh1, w1) \<Rightarrow> print_newline fh1 w1)"
| "exec_print (PrintComma items) fh w = print_items items fh w"

fun exec_prints :: "print_stmt list \<Rightarrow> outfh \<Rightarrow> world \<Rightarrow> (error + outfh) \<times> world" where
  "exec_prints [] fh w = (Inr fh, w)"
| "exec_prints (st # sts) fh w =
     (case exec_print st fh w of
        (Inl e, w1) \<Rightarrow> (Inl e, w1)
      | (Inr fh1, w1) \<Rightarrow> exec_prints sts fh1 w1)"

subsection \<open>Code generation\<close>

text \<open>\<^verbatim>\<open>_get_module_name\<close>: the dots of the last path component become underscores.\<close>

definition get_module_name :: "path \<Rightarrow> path" where
  "get_module_name repyfilename =
     (case os_path_split repyfilename of
        (head, tail) \<Rightarrow> os_path_join head (replace_dots tail))"

text \<open>The body of the loop of \<^verbatim>\<open>_process_output_file\<close> (lines 279 to 286), as the print
  statement it executes for one line.  The loop also computes \<^verbatim>\<open>modulename\<close> and never
  uses it.\<close>

definition translate_line :: "string \<Rightarrow> print_stmt" where
  "translate_line line =
     (if startswith line ''include '' then
        (let includename = strip (drop (length ''include '') line)
         in Print [''repyhelper.translate_and_import('' @ quote @ includename @ quote @ '')''])
      else PrintComma [line])"

text \<open>\<^verbatim>\<open>_process_output_file(outfh, filename, generatedfilename)\<close>: when the source cannot
  be read, the artifact is removed, a failure of the removal is swallowed, and
  \<^verbatim>\<open>TranslationError\<close> is raised.\<close>

definition process_output_file ::
  "outfh \<Rightarrow> path \<Rightarrow> path \<Rightarrow> world \<Rightarrow> (error + outfh) \<times> world" where
  "process_output_file outfh filename generatedfilename w =
     (case read_file filename w of
        (Inl e, w1) \<Rightarrow>
          (if e = IOError then
             (case os_remove generatedfilename w1 of (r, w2) \<Rightarrow> (Inl TranslationError, w2))
           else (Inl e, w1))
      | (Inr repyfiledata, w1) \<Rightarrow>
          exec_prints (map translate_line (readlines repyfiledata)) outfh w1)"

text \<open>Lines 242 to 245: the statement written for \<^verbatim>\<open>mycontext\<close>.\<close>

definition context_binding :: "bool \<Rightarrow> string" where
  "context_binding shared_mycontext =
     (if shared_mycontext then ''mycontext = repyhelper.get_shared_context()''
      else ''mycontext = {}'')"

text \<open>The print statements of lines 236 to 249.  \<open>callfunc_repr\<close> and \<open>callargs_repr\<close>
  stand for \<^verbatim>\<open>repr(callfunc)\<close> and \<^verbatim>\<open>repr(callargs)\<close>, the texts Python's built-in
  \<^verbatim>\<open>repr\<close> gives for the two arguments.\<close>

definition header_stmts :: "path \<Rightarrow> bool \<Rightarrow> string \<Rightarrow> string \<Rightarrow> print_stmt list" where
  "header_stmts abs_repy shared_mycontext callfunc_repr callargs_repr =
     [Print [ENCODING_STRING],
      Print [TRANSLATION_TAGLINE, abs_repy],
      Print [WARNING_LABEL],
      Print [''from repyportability import *''],
      Print [''from repyportability import _context''],
      Print [''import repyhelper''],
      Print [context_binding shared_mycontext],
      Print [''callfunc ='', callfunc_repr],
      Print [''callargs ='', callargs_repr],
      Print []]"

text \<open>The print statements of lines 253 and 254.\<close>

definition footer_stmts :: "path \<Rightarrow> print_stmt list" where
  "footer_stmts abs_repy = [Print [], Print [TRANSLATION_TAGLINE, abs_repy]]"

text \<open>Lines 224 to 232: the directory of the artifact is created when it is missing, and
  the artifact is opened for writing.\<close>

definition open_generated :: "path \<Rightarrow> world \<Rightarrow> (error + path) \<times> world" where
  "open_generated generatedfilename w =
     (let d = os_path_dirname generatedfilename
      in case (if d \<noteq> [] then
                 (case os_path_isdir d w of
                    (isd, w1) \<Rightarrow> (if \<not> isd then os_makedirs d w1 else (Inr (), w1)))
               else (Inr (), w)) of
           (Inl e, w2) \<Rightarrow> (Inl e, w2)
         | (Inr u, w2) \<Rightarrow> open_write generatedfilename w2)"

text \<open>Lines 236 to 254, the body of the second \<^verbatim>\<open>try\<close>.\<close>

definition write_artifact ::
  "outfh \<Rightarrow> path \<Rightarrow> path \<Rightarrow> bool \<Rightarrow> string \<Rightarrow> string \<Rightarrow> world \<Rightarrow> (error + outfh) \<times> world" where
  "write_artifact fh repyfilename generatedfilename shared_mycontext callfunc_repr callargs_repr w =
     (case exec_prints
             (header_stmts (os_path_abspath w repyfilename) shared_mycontext
                callfunc_repr callargs_repr) fh w of
        (Inl e, w1) \<Rightarrow> (Inl e, w1)
      | (Inr fh1, w1) \<Rightarrow>
          (case process_output_file fh1 repyfilename generatedfilename w1 of
             (Inl e, w2) \<Rightarrow> (Inl e, w2)
           | (Inr fh2, w2) \<Rightarrow>
               exec_prints (footer_stmts (os_path_abspath w2 repyfilename)) fh2 w2))"

text \<open>\<^verbatim>\<open>_generate_python_file_from_repy\<close>.  Both \<^verbatim>\<open>except IOError\<close> clauses turn an
  \<^verbatim>\<open>IOError\<close> into a \<^verbatim>\<open>TranslationError\<close>; \<^verbatim>\<open>fh.close()\<close> changes nothing the model
  keeps.\<close>

definition generate_python_file_from_repy ::
  "path \<Rightarrow> path \<Rightarrow> bool \<Rightarrow> string \<Rightarrow> string \<Rightarrow> world \<Rightarrow> (error + unit) \<times> world" where
  "generate_python_file_from_repy repyfilename generatedfilename shared_mycontext
       callfunc_repr callargs_repr w =
     (case open_generated generatedfilename w of
        (Inl e, w1) \<Rightarrow> (Inl (except_IOError e), w1)
      | (Inr a, w1) \<Rightarrow>
          (case write_artifact \<lparr>fh_path = a, softspace = False\<rparr> repyfilename
                  generatedfilename shared_mycontext callfunc_repr callargs_repr w1 of
             (Inl e, w2) \<Rightarrow> (Inl (except_IOError e), w2)
           | (Inr fh, w2) \<Rightarrow> (Inr (), w2)))"

subsection \<open>Module globals and Python values\<close>

text \<open>The Python values the configuration functions tell apart; \<open>PyRef\<close> is a reference
  to a dictionary on the heap.\<close>

datatype pyval = PyNone | PyStr string | PyInt int | PyRef nat

text \<open>\<^verbatim>\<open>sys.path\<close>, the module globals \<^verbatim>\<open>_importcachedir\<close> and \<^verbatim>\<open>shared_context\<close>, and the
  heap of dictionaries, addressed by position.\<close>

record pystate =
  sys_path :: "path list"
  importcachedir :: "path option"
  shared_context :: pyval
  heap :: "(string \<rightharpoonup> pyval) list"

text \<open>\<^verbatim>\<open>get_shared_context()\<close>.\<close>

definition get_shared_context :: "pystate \<Rightarrow> pyval \<times> pystate" where
  "get_shared_context g = (shared_context g, g)"

text \<open>\<^verbatim>\<open>set_shared_context(context)\<close>.\<close>

definition set_shared_context :: "pyval \<Rightarrow> pystate \<Rightarrow> (error + unit) \<times> pystate" where
  "set_shared_context context g =
     (if context = PyNone then (Inl TypeError, g)
      else (Inr (), g\<lparr>shared_context := context\<rparr>))"

text \<open>\<^verbatim>\<open>set_importcachedir(newimportcachedir)\<close>.\<close>

definition set_importcachedir ::
  "pyval \<Rightarrow> pystate \<Rightarrow> world \<Rightarrow> (error + unit) \<times> pystate \<times> world" where
  "set_importcachedir newimportcachedir g w =
     (case newimportcachedir of
        PyNone \<Rightarrow> (Inr (), g\<lparr>importcachedir := None\<rparr>, w)
      | PyStr s \<Rightarrow>
          (let d = (if s = [] then ''.'' else s)
           in case os_path_isdir d w of
                (isd, w1) \<Rightarrow>
                  (if \<not> isd then (Inl TypeError, g, w1)
                   else if d \<notin> set (sys_path g) then (Inl ValueError, g, w1)
                   else (Inr (), g\<lparr>importcachedir := Some d\<rparr>, w1)))
      | PyInt i \<Rightarrow> (Inl TypeError, g, w)
      | PyRef r \<Rightarrow> (Inl TypeError, g, w))"

text \<open>What the statement written for \<^verbatim>\<open>mycontext\<close> does when the artifact is loaded: the
  value bound to \<^verbatim>\<open>mycontext\<close> and the state after it.  \<^verbatim>\<open>{}\<close> allocates a new, empty
  dictionary.\<close>

definition exec_context_binding :: "string \<Rightarrow> pystate \<Rightarrow> (pyval \<times> pystate) option" where
  "exec_context_binding stmt g =
     (if stmt = ''mycontext = repyhelper.get_shared_context()'' then Some (get_shared_context g)
      else if stmt = ''mycontext = {}''
        then Some (PyRef (length (heap g)), g\<lparr>heap := heap g @ [Map.empty]\<rparr>)
      else None)"

text \<open>\<^verbatim>\<open>d[k] = v\<close> through a reference.\<close>

definition dict_store :: "pyval \<Rightarrow> string \<Rightarrow> pyval \<Rightarrow> pystate \<Rightarrow> pystate option" where
  "dict_store r k v g =
     (case r of
        PyRef a \<Rightarrow>
          (if a < length (heap g) then Some (g\<lparr>heap := (heap g)[a := (heap g ! a)(k \<mapsto> v)]\<rparr>)
           else None)
      | _ \<Rightarrow> None)"

text \<open>\<^verbatim>\<open>d[k]\<close> through a reference.\<close>

definition dict_load :: "pyval \<Rightarrow> string \<Rightarrow> pystate \<Rightarrow> pyval option" where
  "dict_load r k g =
     (case r of
        PyRef a \<Rightarrow> (if a < length (heap g) then (heap g ! a) k else None)
      | _ \<Rightarrow> None)"

subsection \<open>translate\<close>

text \<open>The loop of lines 364 to 369 over \<^verbatim>\<open>sys.path\<close>: the file's path and the directory
  it was found in.\<close>

fun search_sys_path :: "path list \<Rightarrow> path \<Rightarrow> world \<Rightarrow> (path \<times> path) option \<times> world" where
  "search_sys_path [] filename w = (None, w)"
| "search_sys_path (pathdir # rest) filename w =
     (let possiblefilenamewithpath = os_path_join pathdir filename
      in case os_path_isfile possiblefilenamewithpath w of
           (found, w1) \<Rightarrow>
             (if found then (Some (possiblefilenamewithpath, pathdir), w1)
              else search_sys_path rest filename w1))"

text \<open>Lines 343 to 375: \<^verbatim>\<open>filenamewithpath\<close> and the default \<^verbatim>\<open>destdir\<close>.
  \<^verbatim>\<open>sys.path[0]\<close> raises \<^verbatim>\<open>IndexError\<close> on an empty search path.\<close>

definition locate_source :: "path \<Rightarrow> pystate \<Rightarrow> world \<Rightarrow> (error + path \<times> path) \<times> world" where
  "locate_source filename g w =
     (if filename \<noteq> os_path_basename filename then
        (let filedir = os_path_abspath w (os_path_dirname filename)
         in case sys_path g of
              [] \<Rightarrow> (Inl IndexError, w)
            | destdir # others \<Rightarrow>
                (case os_path_isdir filedir w of
                   (isd, w1) \<Rightarrow>
                     (if \<not> isd then (Inl ValueError, w1)
                      else
                        (case os_path_isfile filename w1 of
                           (isf, w2) \<Rightarrow>
                             (if \<not> isf then (Inl ValueError, w2)
                              else (Inr (filename, destdir), w2))))))
      else
        (case search_sys_path (sys_path g) filename w of
           (None, w1) \<Rightarrow> (Inl ValueError, w1)
         | (Some (filenamewithpath, filedir), w1) \<Rightarrow> (Inr (filenamewithpath, filedir), w1)))"

text \<open>Lines 381 to 390: the artifact's path from the default directory, the override and
  the file name.\<close>

definition generated_path :: "path \<Rightarrow> path \<Rightarrow> pystate \<Rightarrow> path" where
  "generated_path filename destdir0 g =
     (let modulenameonly = get_module_name (os_path_basename filename);
          generatedfilenameonly = modulenameonly @ ''.py'';
          destdir = (case importcachedir g of None \<Rightarrow> destdir0 | Some d \<Rightarrow> d)
      in os_path_join destdir generatedfilenameonly)"

text \<open>\<^verbatim>\<open>translate(filename, shared_mycontext, callfunc, callargs, force_overwrite)\<close>.
  \<open>callargs\<close> is \<open>None\<close> for Python's \<^verbatim>\<open>None\<close>, which the function replaces by the
  empty list, and otherwise holds \<^verbatim>\<open>repr(callargs)\<close>.\<close>

definition translate ::
  "path \<Rightarrow> bool \<Rightarrow> string \<Rightarrow> string option \<Rightarrow> bool \<Rightarrow> pystate \<Rightarrow> world
     \<Rightarrow> (error + string) \<times> world" where
  "translate filename shared_mycontext callfunc_repr callargs force_overwrite g w =
     (case locate_source filename g w of
        (Inl e, w1) \<Rightarrow> (Inl e, w1)
      | (Inr (filenamewithpath, destdir0), w1) \<Rightarrow>
          (let callargs_repr = (case callargs of None \<Rightarrow> ''[]'' | Some r \<Rightarrow> r);
               modulenameonly = get_module_name (os_path_basename filename);
               generatedfilenamewithpath = generated_path filename destdir0 g
           in case (if force_overwrite then (Inr True, w1)
                    else translation_is_needed filenamewithpath generatedfilenamewithpath w1) of
                (Inl e, w2) \<Rightarrow> (Inl e, w2)
              | (Inr needed, w2) \<Rightarrow>
                  (if needed then
                     (case generate_python_file_from_repy filenamewithpath
                             generatedfilenamewithpath shared_mycontext callfunc_repr
                             callargs_repr w2 of
                        (Inl e, w3) \<Rightarrow> (Inl e, w3)
                      | (Inr u, w3) \<Rightarrow> (Inr modulenameonly, w3))
                   else (Inr modulenameonly, w2))))"

subsection \<open>Merging a module into the caller's globals\<close>

definition GLOBAL_VARS_BLACKLIST :: "string set" where
  "GLOBAL_VARS_BLACKLIST = {''mycontext'', ''callfunc'', ''callargs'', ''repyhelper''}"

text \<open>The loop of \<^verbatim>\<open>_import_file_contents_to_caller_namespace\<close> (lines 483 to 497) over
  \<^verbatim>\<open>inspect.getmembers(import_module)\<close>, a list of pairs of a name and its value, on
  the dictionary \<^verbatim>\<open>caller_globals\<close>.\<close>

fun import_members ::
  "(string \<times> pyval) list \<Rightarrow> bool \<Rightarrow> (string \<rightharpoonup> pyval) \<Rightarrow> (string \<rightharpoonup> pyval)" where
  "import_members [] preserve_globals caller_globals = caller_globals"
| "import_members ((name, defn) # rest) preserve_globals caller_globals =
     (if startswith name ''_'' then import_members rest preserve_globals caller_globals
      else if name \<in> GLOBAL_VARS_BLACKLIST
        then import_members rest preserve_globals caller_globals
      else if name \<in> dom caller_globals \<and> preserve_globals
        then import_members rest preserve_globals caller_globals
      else import_members rest preserve_globals (caller_globals(name \<mapsto> defn)))"

subsection \<open>Predicates used in the statements\<close>

text \<open>\<open>only_logs allowed w w'\<close>: from \<open>w\<close> to \<open>w'\<close> nothing changed but the log, and every
  call logged on the way is one of \<open>allowed\<close>.\<close>

definition only_logs :: "event set \<Rightarrow> world \<Rightarrow> world \<Rightarrow> bool" where
  "only_logs allowed w w' = (\<exists>evs. w' = w\<lparr>trace := trace w @ evs\<rparr> \<and> set evs \<subseteq> allowed)"

text \<open>The result of the check, as a function of the files and the working directory.\<close>

definition verdict :: "path \<Rightarrow> path \<Rightarrow> world \<Rightarrow> error + bool" where
  "verdict r g w =
     (case files w (os_path_abspath w r) of
        None \<Rightarrow> Inl TranslationError
      | Some sf \<Rightarrow>
          (case files w (os_path_abspath w g) of
             None \<Rightarrow> Inr True
           | Some f \<Rightarrow>
               (if \<not> readable f then Inl TranslationError
                else
                  let ls = readlines (content f);
                      first_line = rstrip (readline ls 0);
                      second_line = rstrip (readline ls 1)
                  in if not_generated first_line second_line then Inl TranslationError
                     else if \<not> startswith (last_line_of ls) TRANSLATION_TAGLINE then Inr True
                     else if strip (drop (length TRANSLATION_TAGLINE) first_line)
                               \<noteq> os_path_abspath w r then Inr True
                     else if mtime sf < mtime f then Inr False else Inr True)))"

fun render_items :: "string list \<Rightarrow> bool \<Rightarrow> string \<times> bool" where
  "render_items [] sp = ([], sp)"
| "render_items (s # ss) sp =
     (case render_items ss (s = [] \<or> \<not> py_isspace (last s) \<or> last s = CHR 0x20) of
        (t, sp') \<Rightarrow> ((if sp then '' '' else []) @ s @ t, sp'))"

fun render_stmt :: "print_stmt \<Rightarrow> bool \<Rightarrow> string \<times> bool" where
  "render_stmt (Print items) sp = (fst (render_items items sp) @ nl, False)"
| "render_stmt (PrintComma items) sp = render_items items sp"

fun render :: "print_stmt list \<Rightarrow> bool \<Rightarrow> string \<times> bool" where
  "render [] sp = ([], sp)"
| "render (st # sts) sp =
     (case render_stmt st sp of
        (t, sp1) \<Rightarrow> (case render sts sp1 of (t2, sp2) \<Rightarrow> (t @ t2, sp2)))"

definition wrote :: "path \<Rightarrow> string \<Rightarrow> world \<Rightarrow> world \<Rightarrow> bool" where
  "wrote a t w w' =
     (\<exists>f f'. files w a = Some f \<and> files w' = (files w)(a \<mapsto> f')
        \<and> content f' = content f @ t \<and> readable f' = readable f
        \<and> (mtime f' = mtime f \<or> mtime f' = clock w)
        \<and> space w' + length t = space w \<and> dirs w' = dirs w \<and> cwd w' = cwd w
        \<and> clock w' = clock w \<and> unwritable w' = unwritable w
        \<and> unremovable w' = unremovable w)"

definition writes_as ::
  "(outfh \<Rightarrow> world \<Rightarrow> (error + outfh) \<times> world) \<Rightarrow> (bool \<Rightarrow> string \<times> bool) \<Rightarrow> bool" where
  "writes_as act rend =
     (\<forall>fh w f. files w (fh_path fh) = Some f \<longrightarrow>
        (if length (fst (rend (softspace fh))) \<le> space w
         then fst (act fh w) = Inr (fh\<lparr>softspace := snd (rend (softspace fh))\<rparr>)
              \<and> wrote (fh_path fh) (fst (rend (softspace fh))) w (snd (act fh w))
         else fst (act fh w) = Inl IOError
              \<and> (\<exists>t. wrote (fh_path fh) t w (snd (act fh w)))))"

definition seq_act ::
  "(outfh \<Rightarrow> world \<Rightarrow> (error + outfh) \<times> world) \<Rightarrow> (outfh \<Rightarrow> world \<Rightarrow> (error + outfh) \<times> world)
     \<Rightarrow> outfh \<Rightarrow> world \<Rightarrow> (error + outfh) \<times> world" where
  "seq_act a1 a2 fh w =
     (case a1 fh w of (Inl e, w1) \<Rightarrow> (Inl e, w1) | (Inr fh1, w1) \<Rightarrow> a2 fh1 w1)"

definition seq_rend :: "(bool \<Rightarrow> string \<times> bool) \<Rightarrow> (bool \<Rightarrow> string \<times> bool) \<Rightarrow> bool \<Rightarrow> string \<times> bool" where
  "seq_rend r1 r2 sp = (case r1 sp of (t1, sp1) \<Rightarrow> (case r2 sp1 of (t2, sp2) \<Rightarrow> (t1 @ t2, sp2)))"

definition write_act :: "string \<Rightarrow> outfh \<Rightarrow> world \<Rightarrow> (error + outfh) \<times> world" where
  "write_act s fh w =
     (case fh_write (fh_path fh) s w of (Inl e, w1) \<Rightarrow> (Inl e, w1) | (Inr u, w1) \<Rightarrow> (Inr fh, w1))"

definition render_item :: "string \<Rightarrow> bool \<Rightarrow> string \<times> bool" where
  "render_item s sp =
     ((if sp then '' '' else []) @ s, (s = [] \<or> \<not> py_isspace (last s) \<or> last s = CHR 0x20))"

definition rewrite_line :: "string \<Rightarrow> string" where
  "rewrite_line line =
     (if startswith line ''include '' then
        ''repyhelper.translate_and_import('' @ quote @ strip (drop (length ''include '') line) @ quote @ '')'' @ nl
      else line)"

definition header_text :: "path \<Rightarrow> bool \<Rightarrow> string \<Rightarrow> string \<Rightarrow> string" where
  "header_text abs_repy shared_mycontext callfunc_repr callargs_repr =
     ENCODING_STRING @ nl
     @ TRANSLATION_TAGLINE @ '' '' @ abs_repy @ nl
     @ WARNING_LABEL @ nl
     @ ''from repyportability import *'' @ nl
     @ ''from repyportability import _context'' @ nl
     @ ''import repyhelper'' @ nl
     @ context_binding shared_mycontext @ nl
     @ ''callfunc = '' @ callfunc_repr @ nl
     @ ''callargs = '' @ callargs_repr @ nl
     @ nl"

definition footer_text :: "path \<Rightarrow> string" where
  "footer_text abs_repy = nl @ TRANSLATION_TAGLINE @ '' '' @ abs_repy @ nl"

definition artifact_text :: "path \<Rightarrow> bool \<Rightarrow> string \<Rightarrow> string \<Rightarrow> string \<Rightarrow> string" where
  "artifact_text abs_repy shared_mycontext callfunc_repr callargs_repr repyfiledata =
     header_text abs_repy shared_mycontext callfunc_repr callargs_repr
     @ concat (map rewrite_line (readlines repyfiledata))
     @ footer_text abs_repy"

fun terminated :: "string list \<Rightarrow> bool" where
  "terminated [] = True"
| "terminated [l] = True"
| "terminated (l # ls) = (l \<noteq> [] \<and> last l = CHR 0x0A \<and> terminated ls)"

definition unreadable_at :: "world \<Rightarrow> path \<Rightarrow> bool" where
  "unreadable_at w p = (case files w p of None \<Rightarrow> True | Some f \<Rightarrow> \<not> readable f)"

section \<open>Reading leaves the file system alone\<close>

lemma emit_fields [simp]:
  "files (emit e w) = files w" "dirs (emit e w) = dirs w" "cwd (emit e w) = cwd w"
  "clock (emit e w) = clock w" "unwritable (emit e w) = unwritable w"
  "unremovable (emit e w) = unremovable w" "space (emit e w) = space w"
  "trace (emit e w) = trace w @ [e]"
  by (simp_all add: emit_def)

lemma abspath_cong: "cwd w' = cwd w \<Longrightarrow> os_path_abspath w' p = os_path_abspath w p"
  by (simp add: os_path_abspath_def)

lemma abspath_emit [simp]: "os_path_abspath (emit e w) p = os_path_abspath w p"
  by (simp add: os_path_abspath_def)

lemma os_path_isfile_eq:
  "os_path_isfile p w =
     (files w (os_path_abspath w p) \<noteq> None, emit (Stat (os_path_abspath w p)) w)"
  by (simp add: os_path_isfile_def Let_def)

lemma os_path_isdir_eq:
  "os_path_isdir p w =
     (os_path_abspath w p \<in> dirs w, emit (Stat (os_path_abspath w p)) w)"
  by (simp add: os_path_isdir_def Let_def)

lemma os_stat_mtime_eq:
  "os_stat_mtime p w =
     (case files w (os_path_abspath w p) of None \<Rightarrow> Inl OSError | Some f \<Rightarrow> Inr (mtime f),
      emit (Stat (os_path_abspath w p)) w)"
  by (simp add: os_stat_mtime_def Let_def)

lemma read_file_eq:
  "read_file p w =
     (case files w (os_path_abspath w p) of
        None \<Rightarrow> Inl IOError
      | Some f \<Rightarrow> if readable f then Inr (content f) else Inl IOError,
      emit (OpenRead (os_path_abspath w p)) w)"
  by (simp add: read_file_def Let_def)

lemma only_logs_refl: "only_logs A w w"
  unfolding only_logs_def by (rule exI [of _ "[]"]) simp

lemma only_logs_emit: "e \<in> A \<Longrightarrow> only_logs A w w1 \<Longrightarrow> only_logs A w (emit e w1)"
  unfolding only_logs_def emit_def
proof -
  assume e: "e \<in> A" and "\<exists>evs. w1 = w\<lparr>trace := trace w @ evs\<rparr> \<and> set evs \<subseteq> A"
  then obtain evs where w1: "w1 = w\<lparr>trace := trace w @ evs\<rparr>" and sub: "set evs \<subseteq> A" by blast
  have "w1\<lparr>trace := trace w1 @ [e]\<rparr> = w\<lparr>trace := trace w @ (evs @ [e])\<rparr>"
    by (simp add: w1)
  moreover have "set (evs @ [e]) \<subseteq> A" using e sub by simp
  ultimately show "\<exists>evs. w1\<lparr>trace := trace w1 @ [e]\<rparr> = w\<lparr>trace := trace w @ evs\<rparr> \<and> set evs \<subseteq> A"
    by blast
qed

lemma only_logs_fields:
  "only_logs A w w' \<Longrightarrow> files w' = files w \<and> dirs w' = dirs w \<and> cwd w' = cwd w
     \<and> clock w' = clock w \<and> unwritable w' = unwritable w \<and> unremovable w' = unremovable w
     \<and> space w' = space w"
  unfolding only_logs_def by auto

lemma only_logs_abspath: "only_logs A w w' \<Longrightarrow> os_path_abspath w' p = os_path_abspath w p"
  by (simp add: os_path_abspath_def only_logs_fields)

lemma only_logs_isfile:
  "only_logs A w w1 \<Longrightarrow> Stat (os_path_abspath w p) \<in> A \<Longrightarrow>
   only_logs A w (snd (os_path_isfile p w1))"
  by (simp add: os_path_isfile_def Let_def only_logs_emit only_logs_abspath)

lemma only_logs_isdir:
  "only_logs A w w1 \<Longrightarrow> Stat (os_path_abspath w p) \<in> A \<Longrightarrow>
   only_logs A w (snd (os_path_isdir p w1))"
  by (simp add: os_path_isdir_def Let_def only_logs_emit only_logs_abspath)

lemma only_logs_stat:
  "only_logs A w w1 \<Longrightarrow> Stat (os_path_abspath w p) \<in> A \<Longrightarrow>
   only_logs A w (snd (os_stat_mtime p w1))"
  by (simp add: os_stat_mtime_def Let_def only_logs_emit only_logs_abspath)

lemma only_logs_read:
  "only_logs A w w1 \<Longrightarrow> OpenRead (os_path_abspath w p) \<in> A \<Longrightarrow>
   only_logs A w (snd (read_file p w1))"
  by (simp add: read_file_def Let_def only_logs_emit only_logs_abspath)

lemma only_logs_compare:
  assumes "only_logs A w w3" "Stat (os_path_abspath w r) \<in> A" "Stat (os_path_abspath w g) \<in> A"
  shows "only_logs A w (snd (compare_mtimes r g w3))"
proof -
  have 1: "only_logs A w (snd (os_stat_mtime r w3))" using assms by (simp add: only_logs_stat)
  have 2: "only_logs A w (snd (os_stat_mtime g (snd (os_stat_mtime r w3))))"
    using 1 assms by (simp add: only_logs_stat)
  show ?thesis
    using 1 2 by (auto simp: compare_mtimes_def split: prod.splits sum.splits)
qed

lemma only_logs_judge:
  assumes "only_logs A w w3" "Stat (os_path_abspath w r) \<in> A" "Stat (os_path_abspath w g) \<in> A"
  shows "only_logs A w (snd (judge_artifact r g t w3))"
  using assms by (simp add: judge_artifact_def Let_def only_logs_compare)

lemma only_logs_translation_is_needed:
  assumes "only_logs A w w0" "Stat (os_path_abspath w r) \<in> A" "Stat (os_path_abspath w g) \<in> A"
    "OpenRead (os_path_abspath w g) \<in> A"
  shows "only_logs A w (snd (translation_is_needed r g w0))"
proof -
  have 1: "only_logs A w (snd (os_path_isfile r w0))" using assms by (simp add: only_logs_isfile)
  have 2: "only_logs A w (snd (os_path_isfile g (snd (os_path_isfile r w0))))"
    using 1 assms by (simp add: only_logs_isfile)
  have 3: "only_logs A w (snd (read_file g (snd (os_path_isfile g (snd (os_path_isfile r w0))))))"
    using 2 assms by (simp add: only_logs_read)
  show ?thesis
    using 1 2 3 assms
    by (auto simp: translation_is_needed_def only_logs_judge split: prod.splits sum.splits)
qed

section \<open>The verdict of the staleness check\<close>

lemma fst_compare_mtimes:
  "files w (os_path_abspath w r) = Some sf \<Longrightarrow> files w (os_path_abspath w g) = Some f \<Longrightarrow>
   fst (compare_mtimes r g w) = (if mtime sf < mtime f then Inr False else Inr True)"
  by (simp add: compare_mtimes_def os_stat_mtime_eq)

lemma fst_judge_artifact:
  "files w (os_path_abspath w r) = Some sf \<Longrightarrow> files w (os_path_abspath w g) = Some f \<Longrightarrow>
   fst (judge_artifact r g t w) =
     (let ls = readlines t;
          first_line = rstrip (readline ls 0);
          second_line = rstrip (readline ls 1)
      in if not_generated first_line second_line then Inl TranslationError
         else if \<not> startswith (last_line_of ls) TRANSLATION_TAGLINE then Inr True
         else if strip (drop (length TRANSLATION_TAGLINE) first_line) \<noteq> os_path_abspath w r
           then Inr True
         else if mtime sf < mtime f then Inr False else Inr True)"
  by (simp add: judge_artifact_def Let_def fst_compare_mtimes)

lemma fst_translation_is_needed: "fst (translation_is_needed r g w) = verdict r g w"
proof (cases "files w (os_path_abspath w r)")
  case None
  then show ?thesis
    by (simp add: translation_is_needed_def verdict_def os_path_isfile_eq)
next
  case (Some sf)
  note src = this
  show ?thesis
  proof (cases "files w (os_path_abspath w g)")
    case None
    then show ?thesis using src
      by (simp add: translation_is_needed_def verdict_def os_path_isfile_eq)
  next
    case (Some f)
    let ?w3 = "emit (OpenRead (os_path_abspath w g))
                 (emit (Stat (os_path_abspath w g)) (emit (Stat (os_path_abspath w r)) w))"
    have j: "fst (judge_artifact r g (content f) ?w3) =
       (let ls = readlines (content f);
          first_line = rstrip (readline ls 0);
          second_line = rstrip (readline ls 1)
      in if not_generated first_line second_line then Inl TranslationError
         else if \<not> startswith (last_line_of ls) TRANSLATION_TAGLINE then Inr True
         else if strip (drop (length TRANSLATION_TAGLINE) first_line) \<noteq> os_path_abspath w r
           then Inr True
         else if mtime sf < mtime f then Inr False else Inr True)"
      using fst_judge_artifact [of ?w3 r sf g f "content f"] src Some
      by (simp add: Let_def)
    show ?thesis
      using src Some j
      by (simp add: translation_is_needed_def verdict_def os_path_isfile_eq read_file_eq
            except_IOError_def Let_def)
  qed
qed

lemma last_line_of_last:
  assumes "\<not> startswith (last ls) TRANSLATION_TAGLINE"
  shows "\<not> startswith (last_line_of ls) TRANSLATION_TAGLINE"
proof (cases "drop 2 ls = []")
  case True
  then show ?thesis by (simp add: last_line_of_def startswith_def TRANSLATION_TAGLINE_def)
next
  case False
  then have "last (drop 2 ls) = last ls" by simp
  then show ?thesis using False assms by (simp add: last_line_of_def)
qed

lemma foreign_artifact_is_refused:
  assumes "files w (os_path_abspath w generatedfile) = Some f"
    and "(\<not> startswith (rstrip (readline (readlines (content f)) 0)) ENCODING_STRING
          \<or> \<not> startswith (rstrip (readline (readlines (content f)) 1)) TRANSLATION_TAGLINE)
         \<and> \<not> startswith (rstrip (readline (readlines (content f)) 0)) TRANSLATION_TAGLINE"
  shows "fst (translation_is_needed repyfilename generatedfile w) = Inl TranslationError"
  using assms
  by (simp add: fst_translation_is_needed verdict_def Let_def not_generated_def
        split: option.splits)

lemma wrote_refl: "files w a = Some f \<Longrightarrow> wrote a [] w w"
  unfolding wrote_def by (rule exI [of _ f], rule exI [of _ f]) auto

lemma wrote_emit: "wrote a t w w' \<Longrightarrow> wrote a t w (emit e w')"
  unfolding wrote_def by simp

lemma wrote_emit_left: "wrote a t w w' \<Longrightarrow> wrote a t (emit e w) w'"
  unfolding wrote_def by simp

lemma wrote_trans:
  assumes "wrote a t1 w w1" and "wrote a t2 w1 w2"
  shows "wrote a (t1 @ t2) w w2"
proof -
  from assms(1) obtain f f1 where 1: "files w a = Some f" "files w1 = (files w)(a \<mapsto> f1)"
    "content f1 = content f @ t1" "readable f1 = readable f"
    "mtime f1 = mtime f \<or> mtime f1 = clock w"
    "space w1 + length t1 = space w" "dirs w1 = dirs w" "cwd w1 = cwd w"
    "clock w1 = clock w" "unwritable w1 = unwritable w" "unremovable w1 = unremovable w"
    unfolding wrote_def by blast
  from assms(2) obtain f1' f2 where 2: "files w1 a = Some f1'" "files w2 = (files w1)(a \<mapsto> f2)"
    "content f2 = content f1' @ t2" "readable f2 = readable f1'"
    "mtime f2 = mtime f1' \<or> mtime f2 = clock w1"
    "space w2 + length t2 = space w1" "dirs w2 = dirs w1" "cwd w2 = cwd w1"
    "clock w2 = clock w1" "unwritable w2 = unwritable w1" "unremovable w2 = unremovable w1"
    unfolding wrote_def by blast
  have eq: "f1' = f1" using 1(2) 2(1) by simp
  have "files w2 = (files w)(a \<mapsto> f2)" using 1(2) 2(2) by simp
  moreover have "content f2 = content f @ (t1 @ t2)" using 1(3) 2(3) eq by simp
  moreover have "readable f2 = readable f" using 1(4) 2(4) eq by simp
  moreover have "mtime f2 = mtime f \<or> mtime f2 = clock w" using 1(5) 2(5) 1(9) eq by auto
  moreover have "space w2 + length (t1 @ t2) = space w" using 1(6) 2(6) by simp
  ultimately show ?thesis
    unfolding wrote_def using 1 2 by auto
qed

lemma wrote_files: "wrote a t w w' \<Longrightarrow> \<exists>f'. files w' a = Some f'"
  unfolding wrote_def by auto

lemma wrote_space: "wrote a t w w' \<Longrightarrow> space w' = space w - length t \<and> length t \<le> space w"
  unfolding wrote_def by auto

lemma fh_write_ok:
  assumes "files w a = Some f" and "length s \<le> space w"
  shows "fst (fh_write a s w) = Inr () \<and> wrote a s w (snd (fh_write a s w))"
proof -
  let ?f' = "f\<lparr>content := content f @ s, mtime := clock w\<rparr>"
  have "snd (fh_write a s w) =
     (emit (Write a) w)\<lparr>space := space w - length s, files := (files w)(a \<mapsto> ?f')\<rparr>"
    using assms by (simp add: fh_write_def Let_def)
  moreover have "wrote a s w
     ((emit (Write a) w)\<lparr>space := space w - length s, files := (files w)(a \<mapsto> ?f')\<rparr>)"
    unfolding wrote_def
    by (rule exI [of _ f], rule exI [of _ ?f']) (use assms in simp)
  ultimately show ?thesis using assms by (simp add: fh_write_def Let_def)
qed

lemma fh_write_fail:
  assumes "space w < length s"
  shows "fh_write a s w = (Inl IOError, emit (Write a) w)"
  using assms by (simp add: fh_write_def Let_def)


lemma writes_asI:
  assumes "\<And>fh w f. files w (fh_path fh) = Some f \<Longrightarrow> length (fst (rend (softspace fh))) \<le> space w
             \<Longrightarrow> fst (act fh w) = Inr (fh\<lparr>softspace := snd (rend (softspace fh))\<rparr>)
                 \<and> wrote (fh_path fh) (fst (rend (softspace fh))) w (snd (act fh w))"
    and "\<And>fh w f. files w (fh_path fh) = Some f \<Longrightarrow> space w < length (fst (rend (softspace fh)))
             \<Longrightarrow> fst (act fh w) = Inl IOError \<and> (\<exists>t. wrote (fh_path fh) t w (snd (act fh w)))"
  shows "writes_as act rend"
  unfolding writes_as_def using assms by (auto simp: not_le)

lemma writes_as_ok:
  assumes "writes_as act rend" "files w (fh_path fh) = Some f"
    "length (fst (rend (softspace fh))) \<le> space w"
  shows "fst (act fh w) = Inr (fh\<lparr>softspace := snd (rend (softspace fh))\<rparr>)"
    and "wrote (fh_path fh) (fst (rend (softspace fh))) w (snd (act fh w))"
  using assms unfolding writes_as_def by auto

lemma writes_as_fail:
  assumes "writes_as act rend" "files w (fh_path fh) = Some f"
    "space w < length (fst (rend (softspace fh)))"
  shows "fst (act fh w) = Inl IOError"
    and "\<exists>t. wrote (fh_path fh) t w (snd (act fh w))"
  using assms unfolding writes_as_def by (auto simp: not_le)

lemma writes_as_seq:
  assumes a1: "writes_as a1 r1" and a2: "writes_as a2 r2"
  shows "writes_as (seq_act a1 a2) (seq_rend r1 r2)"
proof (rule writes_asI)
  fix fh :: outfh and w :: world and f :: regfile
  assume isfile: "files w (fh_path fh) = Some f"
    and fits: "length (fst (seq_rend r1 r2 (softspace fh))) \<le> space w"
  obtain t1 sp1 where r1: "r1 (softspace fh) = (t1, sp1)" by (cases "r1 (softspace fh)")
  obtain t2 sp2 where r2: "r2 sp1 = (t2, sp2)" by (cases "r2 sp1")
  have len: "length t1 + length t2 \<le> space w" using fits r1 r2 by (simp add: seq_rend_def)
  let ?fh1 = "fh\<lparr>softspace := sp1\<rparr>"
  let ?w1 = "snd (a1 fh w)"
  have s1: "fst (a1 fh w) = Inr ?fh1" and w1: "wrote (fh_path fh) t1 w ?w1"
    using writes_as_ok [OF a1 isfile, of] r1 len by simp_all
  obtain f1 where f1: "files ?w1 (fh_path ?fh1) = Some f1" using wrote_files [OF w1] by auto
  have sp: "space ?w1 = space w - length t1" using wrote_space [OF w1] by simp
  have fits2: "length (fst (r2 (softspace ?fh1))) \<le> space ?w1" using r2 sp len by simp
  have s2: "fst (a2 ?fh1 ?w1) = Inr (?fh1\<lparr>softspace := sp2\<rparr>)"
    and w2: "wrote (fh_path fh) t2 ?w1 (snd (a2 ?fh1 ?w1))"
    using writes_as_ok [OF a2 f1 fits2] r2 by simp_all
  have run: "seq_act a1 a2 fh w = a2 ?fh1 ?w1"
    using s1 by (cases "a1 fh w") (simp add: seq_act_def)
  show "fst (seq_act a1 a2 fh w) = Inr (fh\<lparr>softspace := snd (seq_rend r1 r2 (softspace fh))\<rparr>)
      \<and> wrote (fh_path fh) (fst (seq_rend r1 r2 (softspace fh))) w (snd (seq_act a1 a2 fh w))"
    using run s2 wrote_trans [OF w1 w2] r1 r2 by (simp add: seq_rend_def)
next
  fix fh :: outfh and w :: world and f :: regfile
  assume isfile: "files w (fh_path fh) = Some f"
    and short: "space w < length (fst (seq_rend r1 r2 (softspace fh)))"
  obtain t1 sp1 where r1: "r1 (softspace fh) = (t1, sp1)" by (cases "r1 (softspace fh)")
  obtain t2 sp2 where r2: "r2 sp1 = (t2, sp2)" by (cases "r2 sp1")
  have len: "space w < length t1 + length t2" using short r1 r2 by (simp add: seq_rend_def)
  show "fst (seq_act a1 a2 fh w) = Inl IOError
      \<and> (\<exists>t. wrote (fh_path fh) t w (snd (seq_act a1 a2 fh w)))"
  proof (cases "length t1 \<le> space w")
    case True
    let ?fh1 = "fh\<lparr>softspace := sp1\<rparr>"
    let ?w1 = "snd (a1 fh w)"
    have s1: "fst (a1 fh w) = Inr ?fh1" and w1: "wrote (fh_path fh) t1 w ?w1"
      using writes_as_ok [OF a1 isfile, of] r1 True by simp_all
    obtain f1 where f1: "files ?w1 (fh_path ?fh1) = Some f1" using wrote_files [OF w1] by auto
    have sp: "space ?w1 = space w - length t1" using wrote_space [OF w1] by simp
    have short2: "space ?w1 < length (fst (r2 (softspace ?fh1)))" using r2 sp len True by simp
    have s2: "fst (a2 ?fh1 ?w1) = Inl IOError"
      and "\<exists>t. wrote (fh_path ?fh1) t ?w1 (snd (a2 ?fh1 ?w1))"
      using writes_as_fail [OF a2 f1 short2] by simp_all
    then obtain t where w2: "wrote (fh_path fh) t ?w1 (snd (a2 ?fh1 ?w1))" by auto
    have run: "seq_act a1 a2 fh w = a2 ?fh1 ?w1"
      using s1 by (cases "a1 fh w") (simp add: seq_act_def)
    show ?thesis using run s2 wrote_trans [OF w1 w2] by auto
  next
    case False
    then have short1: "space w < length (fst (r1 (softspace fh)))" using r1 by simp
    have s1: "fst (a1 fh w) = Inl IOError"
      and e1: "\<exists>t. wrote (fh_path fh) t w (snd (a1 fh w))"
      using writes_as_fail [OF a1 isfile short1] by simp_all
    have run: "seq_act a1 a2 fh w = (Inl IOError, snd (a1 fh w))"
      using s1 by (cases "a1 fh w") (simp add: seq_act_def)
    show ?thesis using run e1 by simp
  qed
qed

lemma writes_as_skip: "writes_as (\<lambda>fh w. (Inr fh, w)) (\<lambda>sp. ([], sp))"
  by (rule writes_asI) (auto intro: wrote_refl)

lemma writes_as_write_act: "writes_as (write_act s) (\<lambda>sp. (s, sp))"
proof (rule writes_asI)
  fix fh :: outfh and w :: world and f :: regfile
  assume isfile: "files w (fh_path fh) = Some f" and "length (fst (s, softspace fh)) \<le> space w"
  then have fits: "length s \<le> space w" by simp
  show "fst (write_act s fh w) = Inr (fh\<lparr>softspace := snd (s, softspace fh)\<rparr>)
      \<and> wrote (fh_path fh) (fst (s, softspace fh)) w (snd (write_act s fh w))"
    using fh_write_ok [OF isfile fits]
    by (cases "fh_write (fh_path fh) s w") (simp add: write_act_def)
next
  fix fh :: outfh and w :: world and f :: regfile
  assume isfile: "files w (fh_path fh) = Some f" and "space w < length (fst (s, softspace fh))"
  then have short: "space w < length s" by simp
  show "fst (write_act s fh w) = Inl IOError
      \<and> (\<exists>t. wrote (fh_path fh) t w (snd (write_act s fh w)))"
    using fh_write_fail [OF short, of "fh_path fh"] wrote_emit [OF wrote_refl [OF isfile]]
    by (auto simp: write_act_def)
qed

lemma writes_as_soft: "writes_as (\<lambda>fh w. (Inr (fh\<lparr>softspace := c\<rparr>), w)) (\<lambda>sp. ([], c))"
  by (rule writes_asI) (auto intro: wrote_refl)

lemma writes_as_if:
  assumes a1: "writes_as a1 r1" and a2: "writes_as a2 r2"
  shows "writes_as (\<lambda>fh w. if softspace fh then a1 fh w else a2 fh w)
           (\<lambda>sp. if sp then r1 sp else r2 sp)"
proof (rule writes_asI)
  fix fh :: outfh and w :: world and f :: regfile
  assume isfile: "files w (fh_path fh) = Some f"
    and fits: "length (fst (if softspace fh then r1 (softspace fh) else r2 (softspace fh)))
                 \<le> space w"
  show "fst (if softspace fh then a1 fh w else a2 fh w) =
          Inr (fh\<lparr>softspace :=
                 snd (if softspace fh then r1 (softspace fh) else r2 (softspace fh))\<rparr>)
      \<and> wrote (fh_path fh)
           (fst (if softspace fh then r1 (softspace fh) else r2 (softspace fh))) w
           (snd (if softspace fh then a1 fh w else a2 fh w))"
  proof (cases "softspace fh")
    case True
    then show ?thesis using writes_as_ok [OF a1 isfile] fits by simp
  next
    case False
    then show ?thesis using writes_as_ok [OF a2 isfile] fits by simp
  qed
next
  fix fh :: outfh and w :: world and f :: regfile
  assume isfile: "files w (fh_path fh) = Some f"
    and short: "space w
       < length (fst (if softspace fh then r1 (softspace fh) else r2 (softspace fh)))"
  show "fst (if softspace fh then a1 fh w else a2 fh w) = Inl IOError
      \<and> (\<exists>t. wrote (fh_path fh) t w (snd (if softspace fh then a1 fh w else a2 fh w)))"
  proof (cases "softspace fh")
    case True
    then show ?thesis using writes_as_fail [OF a1 isfile] short by simp
  next
    case False
    then show ?thesis using writes_as_fail [OF a2 isfile] short by simp
  qed
qed

lemma print_newline_eq:
  "print_newline = seq_act (write_act nl) (\<lambda>fh w. (Inr (fh\<lparr>softspace := False\<rparr>), w))"
  by (rule ext, rule ext)
     (simp add: print_newline_def seq_act_def write_act_def split: prod.splits sum.splits)

lemma print_item_eq:
  "print_item s =
     (\<lambda>fh w. if softspace fh
        then seq_act (write_act '' '')
               (seq_act (write_act s)
                  (\<lambda>fh w. (Inr (fh\<lparr>softspace := (s = [] \<or> \<not> py_isspace (last s) \<or> last s = CHR 0x20)\<rparr>), w)))
               fh w
        else seq_act (write_act s)
               (\<lambda>fh w. (Inr (fh\<lparr>softspace := (s = [] \<or> \<not> py_isspace (last s) \<or> last s = CHR 0x20)\<rparr>), w))
               fh w)"
  by (rule ext, rule ext)
     (simp add: print_item_def seq_act_def write_act_def split: prod.splits sum.splits)

lemma writes_as_print_item: "writes_as (print_item s) (render_item s)"
proof -
  let ?c = "s = [] \<or> \<not> py_isspace (last s) \<or> last s = CHR 0x20"
  let ?soft = "\<lambda>(fh::outfh) (w::world). (Inr (fh\<lparr>softspace := ?c\<rparr>) :: error + outfh, w)"
  have body: "writes_as (seq_act (write_act s) ?soft) (seq_rend (\<lambda>sp. (s, sp)) (\<lambda>sp. ([], ?c)))"
    by (rule writes_as_seq [OF writes_as_write_act writes_as_soft])
  have both: "writes_as (seq_act (write_act '' '') (seq_act (write_act s) ?soft))
      (seq_rend (\<lambda>sp. ('' '', sp)) (seq_rend (\<lambda>sp. (s, sp)) (\<lambda>sp. ([], ?c))))"
    by (rule writes_as_seq [OF writes_as_write_act body])
  have r: "render_item s =
     (\<lambda>sp. if sp then seq_rend (\<lambda>sp. ('' '', sp)) (seq_rend (\<lambda>sp. (s, sp)) (\<lambda>sp. ([], ?c))) sp
           else seq_rend (\<lambda>sp. (s, sp)) (\<lambda>sp. ([], ?c)) sp)"
    by (rule ext) (simp add: render_item_def seq_rend_def)
  show ?thesis
    unfolding r print_item_eq by (rule writes_as_if [OF both body])
qed

lemma writes_as_print_items: "writes_as (print_items items) (render_items items)"
proof (induction items)
  case Nil
  have "print_items [] = (\<lambda>fh w. (Inr fh, w))" by (rule ext, rule ext) simp
  moreover have "render_items [] = (\<lambda>sp. ([], sp))" by (rule ext) simp
  ultimately show ?case using writes_as_skip by simp
next
  case (Cons s ss)
  have a: "print_items (s # ss) = seq_act (print_item s) (print_items ss)"
    by (rule ext, rule ext) (simp add: seq_act_def)
  have r: "render_items (s # ss) = seq_rend (render_item s) (render_items ss)"
    by (rule ext) (simp add: seq_rend_def render_item_def split: prod.splits)
  show ?case unfolding a r by (rule writes_as_seq [OF writes_as_print_item Cons.IH])
qed

lemma writes_as_exec_print: "writes_as (exec_print st) (render_stmt st)"
proof (cases st)
  case (Print items)
  have a: "exec_print (Print items) = seq_act (print_items items) print_newline"
    by (rule ext, rule ext) (simp add: seq_act_def)
  have r: "render_stmt (Print items) = seq_rend (render_items items) (\<lambda>sp. (nl, False))"
    by (rule ext) (simp add: seq_rend_def split: prod.splits)
  have "seq_rend (\<lambda>sp. (nl, sp)) (\<lambda>sp. ([], False)) = (\<lambda>sp. (nl, False))"
    by (rule ext) (simp add: seq_rend_def)
  then have nlw: "writes_as print_newline (\<lambda>sp. (nl, False))"
    unfolding print_newline_eq
    using writes_as_seq [OF writes_as_write_act [of nl] writes_as_soft [of False]]
    by simp
  show ?thesis unfolding Print a r by (rule writes_as_seq [OF writes_as_print_items nlw])
next
  case (PrintComma items)
  have a: "exec_print (PrintComma items) = print_items items" by (rule ext, rule ext) simp
  have r: "render_stmt (PrintComma items) = render_items items" by (rule ext) simp
  show ?thesis unfolding PrintComma a r by (rule writes_as_print_items)
qed

lemma writes_as_exec_prints: "writes_as (exec_prints sts) (render sts)"
proof (induction sts)
  case Nil
  have "exec_prints [] = (\<lambda>fh w. (Inr fh, w))" by (rule ext, rule ext) simp
  moreover have "render [] = (\<lambda>sp. ([], sp))" by (rule ext) simp
  ultimately show ?case using writes_as_skip by simp
next
  case (Cons st sts)
  have a: "exec_prints (st # sts) = seq_act (exec_print st) (exec_prints sts)"
    by (rule ext, rule ext) (simp add: seq_act_def)
  have r: "render (st # sts) = seq_rend (render_stmt st) (render sts)"
    by (rule ext) (simp add: seq_rend_def)
  show ?case unfolding a r by (rule writes_as_seq [OF writes_as_exec_print Cons.IH])
qed


lemma terminated_Cons:
  "terminated (l # ls) = (ls = [] \<or> (l \<noteq> [] \<and> last l = CHR 0x0A \<and> terminated ls))"
  by (cases ls) simp_all

lemma terminated_readlines: "terminated (readlines s)"
proof (induction s)
  case Nil
  then show ?case by simp
next
  case (Cons c cs)
  show ?case
  proof (cases "c = CHR 0x0A")
    case True
    then show ?thesis using Cons by (simp add: terminated_Cons)
  next
    case False
    then show ?thesis using Cons
      by (cases "readlines cs") (auto simp: terminated_Cons)
  qed
qed

lemma render_header:
  "render (header_stmts a sh cf ca) False = (header_text a sh cf ca, False)"
  by (simp add: header_stmts_def header_text_def TRANSLATION_TAGLINE_def nl_def py_isspace_def)

lemma render_footer: "render (footer_stmts a) sp = (footer_text a, False)"
  by (simp add: footer_stmts_def footer_text_def TRANSLATION_TAGLINE_def nl_def py_isspace_def)

lemma render_translate_line: "fst (render_stmt (translate_line l) False) = rewrite_line l"
  by (simp add: translate_line_def rewrite_line_def Let_def split: prod.splits)

lemma render_translate_line_mid:
  "l \<noteq> [] \<Longrightarrow> last l = CHR 0x0A \<Longrightarrow> render_stmt (translate_line l) False = (rewrite_line l, False)"
  by (simp add: translate_line_def rewrite_line_def Let_def py_isspace_def split: prod.splits)

lemma render_body:
  "terminated ls \<Longrightarrow> fst (render (map translate_line ls) False) = concat (map rewrite_line ls)"
proof (induction ls rule: terminated.induct)
  case 1
  then show ?case by simp
next
  case (2 l)
  then show ?case using render_translate_line [of l]
    by (simp split: prod.splits)
next
  case (3 l l' ls)
  then show ?case using render_translate_line_mid [of l]
    by (simp split: prod.splits)
qed

lemma render_append: "render (xs @ ys) sp = seq_rend (render xs) (render ys) sp"
  by (induction xs arbitrary: sp) (simp_all add: seq_rend_def split: prod.splits)

lemma exec_prints_append: "exec_prints (xs @ ys) = seq_act (exec_prints xs) (exec_prints ys)"
proof (rule ext, rule ext)
  fix fh w
  show "exec_prints (xs @ ys) fh w = seq_act (exec_prints xs) (exec_prints ys) fh w"
    by (induction xs arbitrary: fh w) (simp_all add: seq_act_def split: prod.splits sum.splits)
qed

lemma render_body_footer:
  "fst (render (map translate_line (readlines d) @ footer_stmts a) False)
     = concat (map rewrite_line (readlines d)) @ footer_text a"
proof -
  obtain t sp where r: "render (map translate_line (readlines d)) False = (t, sp)"
    by (cases "render (map translate_line (readlines d)) False")
  then have "t = concat (map rewrite_line (readlines d))"
    using render_body [OF terminated_readlines, of d] by simp
  then show ?thesis using r by (simp add: render_append seq_rend_def render_footer)
qed


subsection \<open>Fields a write never touches\<close>

lemma fh_write_cwd: "cwd (snd (fh_write a s w)) = cwd w"
  by (simp add: fh_write_def Let_def)

lemma print_item_cwd: "cwd (snd (print_item s fh w)) = cwd w"
proof -
  have 1: "cwd (snd (fh_write (fh_path fh) '' '' w)) = cwd w" by (rule fh_write_cwd)
  have 2: "cwd (snd (fh_write (fh_path fh) s w1)) = cwd w1" for w1 by (rule fh_write_cwd)
  show ?thesis
    using 1 2 [of w] 2 [of "snd (fh_write (fh_path fh) '' '' w)"]
    by (auto simp: print_item_def split: prod.splits sum.splits if_splits)
qed

lemma print_items_cwd: "cwd (snd (print_items items fh w)) = cwd w"
proof (induction items arbitrary: fh w)
  case Nil
  then show ?case by simp
next
  case (Cons s ss)
  show ?case
    using print_item_cwd [of s fh w] Cons.IH
    by (cases "print_item s fh w") (auto split: sum.splits)
qed

lemma print_newline_cwd: "cwd (snd (print_newline fh w)) = cwd w"
  using fh_write_cwd [of "fh_path fh" nl w]
  by (auto simp: print_newline_def split: prod.splits sum.splits)

lemma exec_print_cwd: "cwd (snd (exec_print st fh w)) = cwd w"
proof (cases st)
  case (Print items)
  show ?thesis
    using print_items_cwd [of items fh w] print_newline_cwd
    by (cases "print_items items fh w") (auto simp: Print split: sum.splits)
next
  case (PrintComma items)
  then show ?thesis by (simp add: print_items_cwd)
qed

lemma exec_prints_cwd: "cwd (snd (exec_prints sts fh w)) = cwd w"
proof (induction sts arbitrary: fh w)
  case Nil
  then show ?case by simp
next
  case (Cons st sts)
  show ?case
    using exec_print_cwd [of st fh w] Cons.IH
    by (cases "exec_print st fh w") (auto split: sum.splits)
qed


subsection \<open>Writing the artifact\<close>

lemma wrote_other: "wrote a t w w' \<Longrightarrow> p \<noteq> a \<Longrightarrow> files w' p = files w p"
  unfolding wrote_def by auto

lemma wrote_cwd: "wrote a t w w' \<Longrightarrow> cwd w' = cwd w"
  unfolding wrote_def by auto

lemma exec_header:
  assumes af: "files w a = Some f"
  shows "length (header_text p sh cf ca) \<le> space w \<Longrightarrow>
           fst (exec_prints (header_stmts p sh cf ca) \<lparr>fh_path = a, softspace = False\<rparr> w)
             = Inr \<lparr>fh_path = a, softspace = False\<rparr>
           \<and> wrote a (header_text p sh cf ca) w
               (snd (exec_prints (header_stmts p sh cf ca) \<lparr>fh_path = a, softspace = False\<rparr> w))"
    and "space w < length (header_text p sh cf ca) \<Longrightarrow>
           fst (exec_prints (header_stmts p sh cf ca) \<lparr>fh_path = a, softspace = False\<rparr> w)
             = Inl IOError
           \<and> (\<exists>t. wrote a t w
               (snd (exec_prints (header_stmts p sh cf ca) \<lparr>fh_path = a, softspace = False\<rparr> w)))"
proof -
  let ?fh = "\<lparr>fh_path = a, softspace = False\<rparr>"
  have isf: "files w (fh_path ?fh) = Some f" using af by simp
  note W = writes_as_exec_prints [of "header_stmts p sh cf ca"]
  show "length (header_text p sh cf ca) \<le> space w \<Longrightarrow>
           fst (exec_prints (header_stmts p sh cf ca) ?fh w) = Inr ?fh
           \<and> wrote a (header_text p sh cf ca) w
               (snd (exec_prints (header_stmts p sh cf ca) ?fh w))"
    using writes_as_ok [OF W isf] by (simp add: render_header)
  show "space w < length (header_text p sh cf ca) \<Longrightarrow>
           fst (exec_prints (header_stmts p sh cf ca) ?fh w) = Inl IOError
           \<and> (\<exists>t. wrote a t w (snd (exec_prints (header_stmts p sh cf ca) ?fh w)))"
    using writes_as_fail [OF W isf] by (simp add: render_header)
qed

text \<open>With a readable source, the body of the second \<^verbatim>\<open>try\<close> is a sequence of print
  statements after one read.\<close>

lemma write_artifact_readable_eq:
  assumes src: "files w (os_path_abspath w r) = Some sf" "readable sf"
    and ne: "os_path_abspath w r \<noteq> a"
    and af: "files w a = Some f"
    and fits: "length (header_text (os_path_abspath w r) sh cf ca) \<le> space w"
  shows "write_artifact \<lparr>fh_path = a, softspace = False\<rparr> r g sh cf ca w =
     exec_prints (map translate_line (readlines (content sf)) @ footer_stmts (os_path_abspath w r))
       \<lparr>fh_path = a, softspace = False\<rparr>
       (emit (OpenRead (os_path_abspath w r))
          (snd (exec_prints (header_stmts (os_path_abspath w r) sh cf ca)
                  \<lparr>fh_path = a, softspace = False\<rparr> w)))"
proof -
  let ?fh = "\<lparr>fh_path = a, softspace = False\<rparr>"
  let ?p = "os_path_abspath w r"
  let ?hdr = "exec_prints (header_stmts ?p sh cf ca) ?fh w"
  let ?w1 = "snd ?hdr"
  let ?body = "map translate_line (readlines (content sf))"
  have h: "fst ?hdr = Inr ?fh" and wr: "wrote a (header_text ?p sh cf ca) w ?w1"
    using exec_header(1) [OF af fits] by simp_all
  have c1: "cwd ?w1 = cwd w" by (rule exec_prints_cwd)
  have p1: "os_path_abspath ?w1 r = ?p" by (rule abspath_cong [OF c1])
  have f1: "files ?w1 ?p = Some sf" using wrote_other [OF wr ne] src by simp
  let ?w1e = "emit (OpenRead ?p) ?w1"
  have proc: "process_output_file ?fh r g ?w1 = exec_prints ?body ?fh ?w1e"
    using f1 src(2) by (simp add: process_output_file_def read_file_eq p1)
  have c2: "cwd (snd (exec_prints ?body ?fh ?w1e)) = cwd w"
    using exec_prints_cwd [of ?body ?fh ?w1e] c1 by simp
  have p2: "os_path_abspath (snd (exec_prints ?body ?fh ?w1e)) r = ?p"
    by (rule abspath_cong [OF c2])
  have "write_artifact ?fh r g sh cf ca w =
     (case exec_prints ?body ?fh ?w1e of
        (Inl e, w2) \<Rightarrow> (Inl e, w2)
      | (Inr fh2, w2) \<Rightarrow> exec_prints (footer_stmts (os_path_abspath w2 r)) fh2 w2)"
    using h proc by (cases ?hdr) (simp add: write_artifact_def)
  also have "\<dots> = seq_act (exec_prints ?body) (exec_prints (footer_stmts ?p)) ?fh ?w1e"
    using p2 by (cases "exec_prints ?body ?fh ?w1e") (auto simp: seq_act_def split: sum.splits)
  finally show ?thesis by (simp add: exec_prints_append)
qed

lemma write_artifact_readable:
  assumes src: "files w (os_path_abspath w r) = Some sf" "readable sf"
    and ne: "os_path_abspath w r \<noteq> a"
    and af: "files w a = Some f"
  shows "length (artifact_text (os_path_abspath w r) sh cf ca (content sf)) \<le> space w \<Longrightarrow>
           (\<exists>fh'. fst (write_artifact \<lparr>fh_path = a, softspace = False\<rparr> r g sh cf ca w) = Inr fh')
           \<and> wrote a (artifact_text (os_path_abspath w r) sh cf ca (content sf)) w
               (snd (write_artifact \<lparr>fh_path = a, softspace = False\<rparr> r g sh cf ca w))"
    and "space w < length (artifact_text (os_path_abspath w r) sh cf ca (content sf)) \<Longrightarrow>
           fst (write_artifact \<lparr>fh_path = a, softspace = False\<rparr> r g sh cf ca w) = Inl IOError
           \<and> (\<exists>t. wrote a t w
                 (snd (write_artifact \<lparr>fh_path = a, softspace = False\<rparr> r g sh cf ca w)))"
proof -
  let ?fh = "\<lparr>fh_path = a, softspace = False\<rparr>"
  let ?p = "os_path_abspath w r"
  let ?H = "header_text ?p sh cf ca"
  let ?B = "concat (map rewrite_line (readlines (content sf))) @ footer_text ?p"
  let ?sts = "map translate_line (readlines (content sf)) @ footer_stmts ?p"
  let ?w1 = "snd (exec_prints (header_stmts ?p sh cf ca) ?fh w)"
  let ?w1e = "emit (OpenRead ?p) ?w1"
  let ?res = "write_artifact ?fh r g sh cf ca w"
  have T: "artifact_text ?p sh cf ca (content sf) = ?H @ ?B" by (simp add: artifact_text_def)
  have rB: "fst (render ?sts (softspace ?fh)) = ?B" by (simp add: render_body_footer)
  note W = writes_as_exec_prints [of ?sts]
  {
    assume fitsH: "length ?H \<le> space w"
    have wr: "wrote a ?H w ?w1" using exec_header(1) [OF af fitsH] by simp
    have wre: "wrote a ?H w ?w1e" by (rule wrote_emit [OF wr])
    have f1: "\<exists>f1. files ?w1e (fh_path ?fh) = Some f1" using wrote_files [OF wre] by auto
    have sp1: "space ?w1e = space w - length ?H" using wrote_space [OF wre] by simp
    have eq: "?res = exec_prints ?sts ?fh ?w1e"
      by (rule write_artifact_readable_eq [OF src ne af fitsH])
    note eq f1 sp1 wre
  } note header_done = this
  show "length (artifact_text ?p sh cf ca (content sf)) \<le> space w \<Longrightarrow>
          (\<exists>fh'. fst ?res = Inr fh') \<and> wrote a (artifact_text ?p sh cf ca (content sf)) w (snd ?res)"
  proof -
    assume fits: "length (artifact_text ?p sh cf ca (content sf)) \<le> space w"
    then have fitsH: "length ?H \<le> space w" using T by simp
    note hd = header_done [OF fitsH]
    obtain f1 where f1: "files ?w1e (fh_path ?fh) = Some f1" using hd(2) by blast
    have fitsB: "length (fst (render ?sts (softspace ?fh))) \<le> space ?w1e"
      using fits T rB hd(3) by simp
    have "fst (exec_prints ?sts ?fh ?w1e) = Inr (?fh\<lparr>softspace := snd (render ?sts (softspace ?fh))\<rparr>)"
      and w2: "wrote (fh_path ?fh) (fst (render ?sts (softspace ?fh))) ?w1e
            (snd (exec_prints ?sts ?fh ?w1e))"
      using writes_as_ok [OF W f1 fitsB] by blast+
    moreover have "wrote a (?H @ ?B) w (snd (exec_prints ?sts ?fh ?w1e))"
      using wrote_trans [OF hd(4)] w2 rB by simp
    ultimately show ?thesis using hd(1) T by simp
  qed
  show "space w < length (artifact_text ?p sh cf ca (content sf)) \<Longrightarrow>
          fst ?res = Inl IOError \<and> (\<exists>t. wrote a t w (snd ?res))"
  proof -
    assume short: "space w < length (artifact_text ?p sh cf ca (content sf))"
    show ?thesis
    proof (cases "length ?H \<le> space w")
      case True
      note hd = header_done [OF True]
      obtain f1 where f1: "files ?w1e (fh_path ?fh) = Some f1" using hd(2) by blast
      have shortB: "space ?w1e < length (fst (render ?sts (softspace ?fh)))"
        using short T rB hd(3) True by simp
      have e: "fst (exec_prints ?sts ?fh ?w1e) = Inl IOError"
        and "\<exists>t. wrote (fh_path ?fh) t ?w1e (snd (exec_prints ?sts ?fh ?w1e))"
        using writes_as_fail [OF W f1 shortB] by blast+
      then obtain t where "wrote a t ?w1e (snd (exec_prints ?sts ?fh ?w1e))" by auto
      then have "wrote a (?H @ t) w (snd (exec_prints ?sts ?fh ?w1e))"
        using wrote_trans [OF hd(4)] by simp
      then show ?thesis using e hd(1) by auto
    next
      case False
      then have sh: "space w < length ?H" by simp
      have e: "fst (exec_prints (header_stmts ?p sh cf ca) ?fh w) = Inl IOError"
        and x: "\<exists>t. wrote a t w ?w1"
        using exec_header(2) [OF af sh] by simp_all
      have "?res = (Inl IOError, ?w1)"
        using e by (cases "exec_prints (header_stmts ?p sh cf ca) ?fh w")
                   (simp add: write_artifact_def)
      then show ?thesis using x by simp
    qed
  qed
qed


lemma read_file_unreadable:
  "unreadable_at w (os_path_abspath w p) \<Longrightarrow>
   read_file p w = (Inl IOError, emit (OpenRead (os_path_abspath w p)) w)"
  by (auto simp: read_file_eq unreadable_at_def split: option.splits)

lemma write_artifact_unreadable:
  fixes w :: world
  assumes nosrc: "unreadable_at w (os_path_abspath w r)"
    and ne: "os_path_abspath w r \<noteq> os_path_abspath w g"
    and af: "files w (os_path_abspath w g) = Some f"
    and fits: "length (header_text (os_path_abspath w r) sh cf ca) \<le> space w"
  shows "fst (write_artifact \<lparr>fh_path = os_path_abspath w g, softspace = False\<rparr> r g sh cf ca w)
           = Inl TranslationError"
    and "os_path_abspath w g \<notin> unremovable w \<Longrightarrow>
           files (snd (write_artifact \<lparr>fh_path = os_path_abspath w g, softspace = False\<rparr>
                         r g sh cf ca w))
             = (files w)(os_path_abspath w g := None)"
    and "os_path_abspath w g \<in> unremovable w \<Longrightarrow>
           wrote (os_path_abspath w g) (header_text (os_path_abspath w r) sh cf ca) w
             (snd (write_artifact \<lparr>fh_path = os_path_abspath w g, softspace = False\<rparr>
                     r g sh cf ca w))"
proof -
  let ?a = "os_path_abspath w g"
  let ?fh = "\<lparr>fh_path = ?a, softspace = False\<rparr>"
  let ?p = "os_path_abspath w r"
  let ?H = "header_text ?p sh cf ca"
  let ?hdr = "exec_prints (header_stmts ?p sh cf ca) ?fh w"
  let ?w1 = "snd ?hdr"
  let ?w1e = "emit (OpenRead ?p) ?w1"
  let ?res = "write_artifact ?fh r g sh cf ca w"
  have h: "fst ?hdr = Inr ?fh" and wr: "wrote ?a ?H w ?w1"
    using exec_header(1) [OF af fits] by simp_all
  have c1: "cwd ?w1 = cwd w" by (rule exec_prints_cwd)
  have p1: "os_path_abspath ?w1 q = os_path_abspath w q" for q by (rule abspath_cong [OF c1])
  have "files ?w1 ?p = files w ?p" by (rule wrote_other [OF wr ne])
  then have un1: "unreadable_at ?w1 (os_path_abspath ?w1 r)"
    using nosrc by (simp add: unreadable_at_def p1)
  have rd: "read_file r ?w1 = (Inl IOError, ?w1e)"
    using read_file_unreadable [OF un1] by (simp add: p1)
  have proc: "process_output_file ?fh r g ?w1 = (Inl TranslationError, snd (os_remove g ?w1e))"
    using rd by (simp add: process_output_file_def split: prod.splits)
  have res: "?res = (Inl TranslationError, snd (os_remove g ?w1e))"
    using h proc by (cases ?hdr) (simp add: write_artifact_def)
  show "fst ?res = Inl TranslationError" using res by simp
  have wre: "wrote ?a ?H w ?w1e" by (rule wrote_emit [OF wr])
  obtain f1 where f1: "files ?w1e ?a = Some f1" using wrote_files [OF wre] by auto
  have fl: "files ?w1e = (files w)(?a \<mapsto> f1)" using wre f1 unfolding wrote_def by auto
  have ur: "unremovable ?w1e = unremovable w" using wre unfolding wrote_def by auto
  show "?a \<notin> unremovable w \<Longrightarrow> files (snd ?res) = (files w)(?a := None)"
    using res f1 fl ur by (simp add: os_remove_def Let_def p1)
  show "?a \<in> unremovable w \<Longrightarrow> wrote ?a ?H w (snd ?res)"
  proof -
    assume "?a \<in> unremovable w"
    then have "snd ?res = emit (Remove ?a) ?w1e"
      using res ur by (simp add: os_remove_def Let_def p1)
    then show ?thesis using wrote_emit [OF wre] by simp
  qed
qed

subsection \<open>Opening the artifact\<close>

lemma open_write_ok:
  assumes "open_write p w = (Inr a, w1)"
  shows "a = os_path_abspath w p"
    and "\<exists>f0. files w1 = (files w)(a \<mapsto> f0) \<and> content f0 = [] \<and> mtime f0 = clock w"
    and "cwd w1 = cwd w" and "space w1 = space w" and "clock w1 = clock w"
    and "unremovable w1 = unremovable w"
  using assms by (auto simp: open_write_def Let_def split: if_splits)

lemma makedirs_fields:
  "files (snd (os_makedirs p w)) = files w" "cwd (snd (os_makedirs p w)) = cwd w"
  "space (snd (os_makedirs p w)) = space w" "clock (snd (os_makedirs p w)) = clock w"
  "unremovable (snd (os_makedirs p w)) = unremovable w"
  by (simp_all add: os_makedirs_def Let_def)

lemma open_generated_ok:
  assumes "open_generated g w = (Inr a, w1)"
  shows "a = os_path_abspath w g"
    and "\<exists>f0. files w1 = (files w)(a \<mapsto> f0) \<and> content f0 = [] \<and> mtime f0 = clock w"
    and "cwd w1 = cwd w" and "space w1 = space w" and "clock w1 = clock w"
    and "unremovable w1 = unremovable w"
proof -
  obtain w0 where ow: "open_write g w0 = (Inr a, w1)"
    and same: "files w0 = files w" "cwd w0 = cwd w" "space w0 = space w" "clock w0 = clock w"
      "unremovable w0 = unremovable w"
  proof (cases "os_path_dirname g = []")
    case True
    then have "open_write g w = (Inr a, w1)" using assms by (simp add: open_generated_def)
    then show ?thesis using that by simp
  next
    case False
    let ?d = "os_path_dirname g"
    let ?wi = "emit (Stat (os_path_abspath w ?d)) w"
    show ?thesis
    proof (cases "os_path_abspath w ?d \<in> dirs w")
      case True
      then have "open_write g ?wi = (Inr a, w1)"
        using assms False by (simp add: open_generated_def os_path_isdir_eq)
      then show ?thesis using that [of ?wi] by simp
    next
      case nodir: False
      obtain r wm where mk: "os_makedirs ?d ?wi = (r, wm)" by (cases "os_makedirs ?d ?wi")
      have "open_write g wm = (Inr a, w1)"
        using assms False nodir mk
        by (cases r) (simp_all add: open_generated_def os_path_isdir_eq)
      moreover have "files wm = files w" "cwd wm = cwd w" "space wm = space w"
        "clock wm = clock w" "unremovable wm = unremovable w"
        using makedirs_fields [of ?d ?wi] mk by simp_all
      ultimately show ?thesis using that [of wm] by simp
    qed
  qed
  have p: "os_path_abspath w0 g = os_path_abspath w g" by (rule abspath_cong [OF same(2)])
  show "a = os_path_abspath w g" using open_write_ok(1) [OF ow] p by simp
  show "\<exists>f0. files w1 = (files w)(a \<mapsto> f0) \<and> content f0 = [] \<and> mtime f0 = clock w"
    using open_write_ok(2) [OF ow] same by simp
  show "cwd w1 = cwd w" "space w1 = space w" "clock w1 = clock w"
    "unremovable w1 = unremovable w"
    using open_write_ok(3-6) [OF ow] same by simp_all
qed


subsection \<open>Generation as a whole\<close>

lemma generate_ok:
  assumes op: "open_generated g w = (Inr a, w1)"
    and src: "files w (os_path_abspath w r) = Some sf" "readable sf"
    and ne: "os_path_abspath w r \<noteq> os_path_abspath w g"
    and fits: "length (artifact_text (os_path_abspath w r) sh cf ca (content sf)) \<le> space w"
  shows "fst (generate_python_file_from_repy r g sh cf ca w) = Inr ()"
    and "\<exists>f'. files (snd (generate_python_file_from_repy r g sh cf ca w))
               = (files w)(os_path_abspath w g \<mapsto> f')
             \<and> content f' = artifact_text (os_path_abspath w r) sh cf ca (content sf)
             \<and> mtime f' = clock w"
proof -
  note o = open_generated_ok [OF op]
  obtain f0 where f0: "files w1 = (files w)(a \<mapsto> f0)" "content f0 = []" "mtime f0 = clock w"
    using o(2) by blast
  have p1: "os_path_abspath w1 q = os_path_abspath w q" for q by (rule abspath_cong [OF o(3)])
  have src1: "files w1 (os_path_abspath w1 r) = Some sf" using src(1) ne f0(1) o(1) by (simp add: p1)
  have ne1: "os_path_abspath w1 r \<noteq> a" using ne o(1) by (simp add: p1)
  have af1: "files w1 a = Some f0" using f0(1) by simp
  have fits1: "length (artifact_text (os_path_abspath w1 r) sh cf ca (content sf)) \<le> space w1"
    using fits o(4) by (simp add: p1)
  let ?res = "write_artifact \<lparr>fh_path = a, softspace = False\<rparr> r g sh cf ca w1"
  from write_artifact_readable(1) [OF src1 src(2) ne1 af1 fits1]
  obtain fh' where r: "fst ?res = Inr fh'"
    and wr: "wrote a (artifact_text (os_path_abspath w r) sh cf ca (content sf)) w1 (snd ?res)"
    by (auto simp: p1)
  have gen: "generate_python_file_from_repy r g sh cf ca w = (Inr (), snd ?res)"
    using op r by (cases ?res) (simp add: generate_python_file_from_repy_def)
  show "fst (generate_python_file_from_repy r g sh cf ca w) = Inr ()" using gen by simp
  from wr obtain f' where "files (snd ?res) = (files w1)(a \<mapsto> f')"
    "content f' = content f0 @ artifact_text (os_path_abspath w r) sh cf ca (content sf)"
    "mtime f' = mtime f0 \<or> mtime f' = clock w1"
    unfolding wrote_def using af1 by auto
  then have "files (snd ?res) = (files w)(os_path_abspath w g \<mapsto> f')
      \<and> content f' = artifact_text (os_path_abspath w r) sh cf ca (content sf)
      \<and> mtime f' = clock w"
    using f0 o(1) o(5) by auto
  then show "\<exists>f'. files (snd (generate_python_file_from_repy r g sh cf ca w))
               = (files w)(os_path_abspath w g \<mapsto> f')
             \<and> content f' = artifact_text (os_path_abspath w r) sh cf ca (content sf)
             \<and> mtime f' = clock w"
    using gen by auto
qed

lemma generate_write_fails:
  assumes op: "open_generated g w = (Inr a, w1)"
    and src: "files w (os_path_abspath w r) = Some sf" "readable sf"
    and ne: "os_path_abspath w r \<noteq> os_path_abspath w g"
    and short: "space w < length (artifact_text (os_path_abspath w r) sh cf ca (content sf))"
  shows "fst (generate_python_file_from_repy r g sh cf ca w) = Inl TranslationError"
    and "\<exists>f'. files (snd (generate_python_file_from_repy r g sh cf ca w))
               = (files w)(os_path_abspath w g \<mapsto> f')"
proof -
  note o = open_generated_ok [OF op]
  obtain f0 where f0: "files w1 = (files w)(a \<mapsto> f0)" "content f0 = []" "mtime f0 = clock w"
    using o(2) by blast
  have p1: "os_path_abspath w1 q = os_path_abspath w q" for q by (rule abspath_cong [OF o(3)])
  have src1: "files w1 (os_path_abspath w1 r) = Some sf" using src(1) ne f0(1) o(1) by (simp add: p1)
  have ne1: "os_path_abspath w1 r \<noteq> a" using ne o(1) by (simp add: p1)
  have af1: "files w1 a = Some f0" using f0(1) by simp
  have short1: "space w1 < length (artifact_text (os_path_abspath w1 r) sh cf ca (content sf))"
    using short o(4) by (simp add: p1)
  let ?res = "write_artifact \<lparr>fh_path = a, softspace = False\<rparr> r g sh cf ca w1"
  from write_artifact_readable(2) [OF src1 src(2) ne1 af1 short1]
  obtain t where r: "fst ?res = Inl IOError" and wr: "wrote a t w1 (snd ?res)"
    by auto
  have gen: "generate_python_file_from_repy r g sh cf ca w = (Inl TranslationError, snd ?res)"
    using op r by (cases ?res) (simp add: generate_python_file_from_repy_def except_IOError_def)
  show "fst (generate_python_file_from_repy r g sh cf ca w) = Inl TranslationError"
    using gen by simp
  from wr obtain f' where "files (snd ?res) = (files w1)(a \<mapsto> f')"
    unfolding wrote_def by auto
  then have "files (snd ?res) = (files w)(os_path_abspath w g \<mapsto> f')" using f0 o(1) by auto
  then show "\<exists>f'. files (snd (generate_python_file_from_repy r g sh cf ca w))
               = (files w)(os_path_abspath w g \<mapsto> f')"
    using gen by auto
qed

lemma generate_read_fails:
  assumes op: "open_generated g w = (Inr a, w1)"
    and nosrc: "unreadable_at w (os_path_abspath w r)"
    and ne: "os_path_abspath w r \<noteq> os_path_abspath w g"
    and fits: "length (header_text (os_path_abspath w r) sh cf ca) \<le> space w"
  shows "fst (generate_python_file_from_repy r g sh cf ca w) = Inl TranslationError"
    and "os_path_abspath w g \<notin> unremovable w \<Longrightarrow>
           files (snd (generate_python_file_from_repy r g sh cf ca w))
             = (files w)(os_path_abspath w g := None)"
    and "os_path_abspath w g \<in> unremovable w \<Longrightarrow>
           \<exists>f'. files (snd (generate_python_file_from_repy r g sh cf ca w))
                  = (files w)(os_path_abspath w g \<mapsto> f')
                \<and> content f' = header_text (os_path_abspath w r) sh cf ca"
proof -
  note o = open_generated_ok [OF op]
  obtain f0 where f0: "files w1 = (files w)(a \<mapsto> f0)" "content f0 = []" "mtime f0 = clock w"
    using o(2) by blast
  have p1: "os_path_abspath w1 q = os_path_abspath w q" for q by (rule abspath_cong [OF o(3)])
  have a1: "a = os_path_abspath w1 g" using o(1) by (simp add: p1)
  have nosrc1: "unreadable_at w1 (os_path_abspath w1 r)"
    using nosrc ne f0(1) o(1) by (simp add: p1 unreadable_at_def)
  have ne1: "os_path_abspath w1 r \<noteq> os_path_abspath w1 g" using ne by (simp add: p1)
  have af1: "files w1 (os_path_abspath w1 g) = Some f0" using f0(1) a1 by simp
  have fits1: "length (header_text (os_path_abspath w1 r) sh cf ca) \<le> space w1"
    using fits o(4) by (simp add: p1)
  let ?res = "write_artifact \<lparr>fh_path = os_path_abspath w1 g, softspace = False\<rparr> r g sh cf ca w1"
  note U = write_artifact_unreadable [OF nosrc1 ne1 af1 fits1]
  have gen: "generate_python_file_from_repy r g sh cf ca w = (Inl TranslationError, snd ?res)"
    using op U(1) a1
    by (cases ?res) (simp add: generate_python_file_from_repy_def except_IOError_def)
  show "fst (generate_python_file_from_repy r g sh cf ca w) = Inl TranslationError"
    using gen by simp
  show "os_path_abspath w g \<notin> unremovable w \<Longrightarrow>
           files (snd (generate_python_file_from_repy r g sh cf ca w))
             = (files w)(os_path_abspath w g := None)"
    using U(2) gen f0(1) o(1) o(6) by (simp add: p1)
  show "os_path_abspath w g \<in> unremovable w \<Longrightarrow>
           \<exists>f'. files (snd (generate_python_file_from_repy r g sh cf ca w))
                  = (files w)(os_path_abspath w g \<mapsto> f')
                \<and> content f' = header_text (os_path_abspath w r) sh cf ca"
  proof -
    assume "os_path_abspath w g \<in> unremovable w"
    then have "wrote (os_path_abspath w1 g) (header_text (os_path_abspath w1 r) sh cf ca) w1
                (snd ?res)"
      using U(3) o(6) by (simp add: p1)
    then obtain f' where "files (snd ?res) = (files w1)(os_path_abspath w1 g \<mapsto> f')"
      "content f' = content f0 @ header_text (os_path_abspath w1 r) sh cf ca"
      unfolding wrote_def using af1 by auto
    then show ?thesis using gen f0 o(1) by (auto simp: p1)
  qed
qed

lemma readlines_Nil_iff: "readlines s = [] \<longleftrightarrow> s = []"
  by (cases s) (auto split: list.splits)

lemma readlines_nl_append:
  "readlines (s @ CHR 0x0A # t) = readlines (s @ [CHR 0x0A]) @ readlines t"
proof (induction s)
  case Nil
  then show ?case by simp
next
  case (Cons c cs)
  have ne: "readlines (cs @ [CHR 0x0A]) \<noteq> []" by (simp add: readlines_Nil_iff)
  then obtain l ls where l: "readlines (cs @ [CHR 0x0A]) = l # ls"
    by (cases "readlines (cs @ [CHR 0x0A])") auto
  show ?case using Cons l by simp
qed

lemma readlines_no_nl:
  "CHR 0x0A \<notin> set s \<Longrightarrow> readlines (s @ [CHR 0x0A]) = [s @ [CHR 0x0A]]"
  by (induction s) auto

lemma rstrip_line:
  assumes ne: "s \<noteq> []" and ns: "\<not> py_isspace (last s)"
  shows "rstrip (s @ [CHR 0x0A]) = s"
proof -
  obtain c cs where r: "rev s = c # cs" using ne by (cases "rev s") auto
  have "hd (rev s) = last s" using ne by (simp add: hd_rev)
  then have "c = last s" by (simp only: r list.sel)
  then have nc: "\<not> py_isspace c" using ns by simp
  have "rstrip (s @ [CHR 0x0A]) = rev (dropWhile py_isspace (CHR 0x0A # rev s))"
    by (simp add: rstrip_def)
  also have "\<dots> = rev (dropWhile py_isspace (rev s))" by (simp add: py_isspace_def)
  also have "\<dots> = rev (dropWhile py_isspace (c # cs))" by (simp only: r)
  also have "\<dots> = rev (c # cs)" using nc by simp
  also have "\<dots> = rev (rev s)" by (simp only: r)
  also have "\<dots> = s" by simp
  finally show ?thesis .
qed

text \<open>The first line of a generated artifact is the encoding line.\<close>

lemma artifact_first_line:
  "rstrip (readline (readlines (ENCODING_STRING @ nl @ rest)) 0) = ENCODING_STRING"
proof -
  have nonl: "CHR 0x0A \<notin> set ENCODING_STRING" by (simp add: ENCODING_STRING_def)
  have "readlines (ENCODING_STRING @ CHR 0x0A # rest)
          = [ENCODING_STRING @ [CHR 0x0A]] @ readlines rest"
    using readlines_nl_append [of ENCODING_STRING rest] readlines_no_nl [OF nonl] by simp
  then have "readline (readlines (ENCODING_STRING @ nl @ rest)) 0 = ENCODING_STRING @ [CHR 0x0A]"
    by (simp add: readline_def nl_def)
  moreover have "rstrip (ENCODING_STRING @ [CHR 0x0A]) = ENCODING_STRING"
    by (rule rstrip_line) (simp_all add: ENCODING_STRING_def py_isspace_def)
  ultimately show ?thesis by simp
qed

lemma normpath_nonempty: "os_path_normpath p \<noteq> []"
  by (simp add: os_path_normpath_def Let_def)

lemma abspath_nonempty: "os_path_abspath w p \<noteq> []"
  by (simp add: os_path_abspath_def normpath_nonempty)

lemma strip_Nil: "strip [] = []"
  by (simp add: strip_def lstrip_def rstrip_def)

text \<open>An artifact in the current layout is never kept: the path is cut out of the first
  line, which is the encoding line and shorter than the tag.\<close>

lemma encoding_first_line_never_reused:
  assumes "files w (os_path_abspath w g) = Some f"
    and "rstrip (readline (readlines (content f)) 0) = ENCODING_STRING"
  shows "verdict r g w \<noteq> Inr False"
proof -
  have "strip (drop (length TRANSLATION_TAGLINE) ENCODING_STRING) = []"
    by (simp add: TRANSLATION_TAGLINE_def ENCODING_STRING_def strip_Nil)
  then have "strip (drop (length TRANSLATION_TAGLINE) ENCODING_STRING) \<noteq> os_path_abspath w r"
    using abspath_nonempty [of w r] by simp
  then show ?thesis
    using assms by (simp add: verdict_def Let_def split: option.splits)
qed

lemma header_text_split: "\<exists>rest. header_text p sh cf ca = ENCODING_STRING @ nl @ rest"
  by (simp add: header_text_def)

lemma artifact_text_split: "\<exists>rest. artifact_text p sh cf ca d = ENCODING_STRING @ nl @ rest"
  by (simp add: artifact_text_def header_text_def)

lemma generated_never_reused:
  assumes "files w (os_path_abspath w g) = Some f"
    and "content f = artifact_text p sh cf ca d \<or> content f = header_text p' sh' cf' ca'"
  shows "fst (translation_is_needed r g w) \<noteq> Inr False"
proof -
  obtain rest where "content f = ENCODING_STRING @ nl @ rest"
    using assms(2) artifact_text_split [of p sh cf ca d] header_text_split [of p' sh' cf' ca']
    by auto
  then have "rstrip (readline (readlines (content f)) 0) = ENCODING_STRING"
    by (simp only: artifact_first_line)
  then show ?thesis
    using encoding_first_line_never_reused [OF assms(1)] by (simp add: fst_translation_is_needed)
qed

text \<open>A file that holds only the header ends in an empty line, not in the tag.\<close>

lemma last_line_of_blank_end:
  assumes "x \<noteq> []"
  shows "last_line_of (readlines (ENCODING_STRING @ nl @ x @ nl @ nl)) = nl"
proof -
  have nonl: "CHR 0x0A \<notin> set ENCODING_STRING" by (simp add: ENCODING_STRING_def)
  have 1: "readlines (ENCODING_STRING @ CHR 0x0A # (x @ nl @ nl))
          = [ENCODING_STRING @ [CHR 0x0A]] @ readlines (x @ nl @ nl)"
    using readlines_nl_append [of ENCODING_STRING "x @ nl @ nl"] readlines_no_nl [OF nonl] by simp
  have 2: "readlines (x @ nl @ nl) = readlines (x @ [CHR 0x0A]) @ [[CHR 0x0A]]"
    using readlines_nl_append [of x "[CHR 0x0A]"] by (simp add: nl_def)
  have ne: "readlines (x @ [CHR 0x0A]) \<noteq> []" by (simp add: readlines_Nil_iff)
  then obtain l ls where l: "readlines (x @ [CHR 0x0A]) = l # ls"
    by (cases "readlines (x @ [CHR 0x0A])") auto
  have "readlines (ENCODING_STRING @ nl @ x @ nl @ nl)
          = (ENCODING_STRING @ [CHR 0x0A]) # l # ls @ [[CHR 0x0A]]"
    using 1 2 l by (simp add: nl_def)
  then show ?thesis by (simp add: last_line_of_def nl_def)
qed

lemma header_text_shape:
  "\<exists>x. x \<noteq> [] \<and> header_text p sh cf ca = ENCODING_STRING @ nl @ x @ nl @ nl"
proof (rule exI, rule conjI)
  show "TRANSLATION_TAGLINE @ '' '' @ p @ nl
     @ WARNING_LABEL @ nl
     @ ''from repyportability import *'' @ nl
     @ ''from repyportability import _context'' @ nl
     @ ''import repyhelper'' @ nl
     @ context_binding sh @ nl
     @ ''callfunc = '' @ cf @ nl
     @ ''callargs = '' @ ca \<noteq> []"
    by (simp add: TRANSLATION_TAGLINE_def)
  show "header_text p sh cf ca = ENCODING_STRING @ nl @ (TRANSLATION_TAGLINE @ '' '' @ p @ nl
     @ WARNING_LABEL @ nl
     @ ''from repyportability import *'' @ nl
     @ ''from repyportability import _context'' @ nl
     @ ''import repyhelper'' @ nl
     @ context_binding sh @ nl
     @ ''callfunc = '' @ cf @ nl
     @ ''callargs = '' @ ca) @ nl @ nl"
    by (simp add: header_text_def)
qed

lemma header_only_regenerated:
  assumes "files w (os_path_abspath w g) = Some f"
    and "content f = header_text p sh cf ca"
  shows "verdict r g w \<noteq> Inr False"
proof -
  obtain x where x: "x \<noteq> []" "header_text p sh cf ca = ENCODING_STRING @ nl @ x @ nl @ nl"
    using header_text_shape by blast
  have "last_line_of (readlines (content f)) = nl"
    using last_line_of_blank_end [OF x(1)] x(2) assms(2) by simp
  then have "\<not> startswith (last_line_of (readlines (content f))) TRANSLATION_TAGLINE"
    by (simp add: startswith_def nl_def TRANSLATION_TAGLINE_def)
  then show ?thesis
    using assms(1) by (simp add: verdict_def Let_def split: option.splits)
qed

section \<open>Locating the source\<close>

lemma basename_eq_iff: "os_path_basename p = p \<longleftrightarrow> CHR ''/'' \<notin> set p"
proof
  assume "os_path_basename p = p"
  then have "takeWhile (\<lambda>c. c \<noteq> CHR ''/'') (rev p) = rev p"
    by (metis os_path_basename_def rev_rev_ident)
  then have "\<forall>c \<in> set (rev p). c \<noteq> CHR ''/''" by (simp add: takeWhile_eq_all_conv)
  then show "CHR ''/'' \<notin> set p" by auto
next
  assume "CHR ''/'' \<notin> set p"
  then have "\<forall>c \<in> set (rev p). c \<noteq> CHR ''/''" by auto
  then have tw: "takeWhile (\<lambda>c. c \<noteq> CHR ''/'') (rev p) = rev p"
    by (simp only: takeWhile_eq_all_conv)
  show "os_path_basename p = p" unfolding os_path_basename_def tw by simp
qed

lemma basename_no_slash: "CHR ''/'' \<notin> set (os_path_basename p)"
proof -
  have "set (takeWhile (\<lambda>c. c \<noteq> CHR ''/'') (rev p)) \<subseteq> {c. c \<noteq> CHR ''/''}"
    using set_takeWhileD by fastforce
  then show ?thesis by (auto simp: os_path_basename_def)
qed

lemma dirname_no_slash: "CHR ''/'' \<notin> set p \<Longrightarrow> os_path_dirname p = []"
proof -
  assume "CHR ''/'' \<notin> set p"
  then have "dropWhile (\<lambda>c. c \<noteq> CHR ''/'') (rev p) = []" by auto
  then show ?thesis by (simp add: os_path_dirname_def)
qed

lemma get_module_name_basename:
  "get_module_name (os_path_basename p) = replace_dots (os_path_basename p)"
proof -
  let ?b = "os_path_basename p"
  have ns: "CHR ''/'' \<notin> set ?b" by (rule basename_no_slash)
  have b: "os_path_basename ?b = ?b" using ns by (simp add: basename_eq_iff)
  have d: "os_path_dirname ?b = []" using ns by (rule dirname_no_slash)
  have "CHR ''/'' \<notin> set (replace_dots ?b)" using ns by (auto simp: replace_dots_def)
  then have "\<not> startswith (replace_dots ?b) ''/''"
    by (cases "replace_dots ?b") (auto simp: startswith_def)
  then show ?thesis
    by (simp add: get_module_name_def os_path_split_def b d os_path_join_def)
qed

lemma fst_search_sys_path:
  "fst (search_sys_path ps fn w) =
     map_option (\<lambda>d. (os_path_join d fn, d))
       (List.find (\<lambda>d. files w (os_path_abspath w (os_path_join d fn)) \<noteq> None) ps)"
  by (induction ps arbitrary: w) (simp_all add: os_path_isfile_eq Let_def)

lemma only_logs_search:
  "only_logs A w w0 \<Longrightarrow> range Stat \<subseteq> A \<Longrightarrow> only_logs A w (snd (search_sys_path ps fn w0))"
proof (induction ps arbitrary: w0)
  case Nil
  then show ?case by simp
next
  case (Cons d ps)
  have "only_logs A w (emit (Stat (os_path_abspath w0 (os_path_join d fn))) w0)"
    using Cons.prems by (intro only_logs_emit) auto
  then show ?case using Cons by (simp add: os_path_isfile_eq Let_def)
qed

lemma only_logs_locate:
  "only_logs (range Stat) w (snd (locate_source fn g w))"
proof (cases "fn \<noteq> os_path_basename fn")
  case True
  note sep = this
  let ?fd = "os_path_abspath w (os_path_dirname fn)"
  let ?w1 = "emit (Stat (os_path_abspath w ?fd)) w"
  let ?w2 = "emit (Stat (os_path_abspath w fn)) ?w1"
  have 0: "only_logs (range Stat) w w" by (rule only_logs_refl)
  have 1: "only_logs (range Stat) w ?w1"
    by (intro only_logs_emit only_logs_refl) simp
  have 2: "only_logs (range Stat) w ?w2"
    by (rule only_logs_emit [OF _ 1]) simp
  have "snd (locate_source fn g w) = w \<or> snd (locate_source fn g w) = ?w1
      \<or> snd (locate_source fn g w) = ?w2"
    using sep
    by (simp add: locate_source_def Let_def os_path_isdir_eq os_path_isfile_eq
          split: list.splits)
  then show ?thesis using 0 1 2 by presburger
next
  case False
  have "only_logs (range Stat) w (snd (search_sys_path (sys_path g) fn w))"
    by (rule only_logs_search) (simp_all add: only_logs_refl)
  then show ?thesis
    using False by (auto simp: locate_source_def split: prod.splits option.splits)
qed

section \<open>The staleness check changes nothing\<close>

text \<open>
  Claim C10.  \<^verbatim>\<open>_translation_is_needed\<close> is read-only: whatever it returns or raises, the
  world after it is the world before it with a longer log, the calls it logged are stats of
  the two paths and one open-for-reading of the candidate artifact, and so every file,
  the source and the artifact among them, holds the bytes it held before.
\<close>

theorem translation_is_needed_read_only:
  "only_logs {Stat (os_path_abspath w repyfilename), Stat (os_path_abspath w generatedfile),
              OpenRead (os_path_abspath w generatedfile)}
     w (snd (translation_is_needed repyfilename generatedfile w))
   \<and> files (snd (translation_is_needed repyfilename generatedfile w)) = files w
   \<and> dirs (snd (translation_is_needed repyfilename generatedfile w)) = dirs w"
proof -
  let ?A = "{Stat (os_path_abspath w repyfilename), Stat (os_path_abspath w generatedfile),
              OpenRead (os_path_abspath w generatedfile)}"
  have "only_logs ?A w (snd (translation_is_needed repyfilename generatedfile w))"
    by (rule only_logs_translation_is_needed) (simp_all add: only_logs_refl)
  then show ?thesis by (simp add: only_logs_fields)
qed

section \<open>A truncated artifact is regenerated\<close>

text \<open>
  Claim C5.  When the source exists and the candidate artifact can be read and passes the
  test for files written by this module, and its last line does not start with the
  translation tag, \<^verbatim>\<open>_translation_is_needed\<close> returns \<^verbatim>\<open>True\<close> and raises nothing.  The
  last line is taken both ways: the last line of the file, and the variable \<^verbatim>\<open>last_line\<close>
  of the code, which is empty for a file of one or two lines.
\<close>

theorem truncated_artifact_is_regenerated:
  assumes "files w (os_path_abspath w repyfilename) = Some sf"
    and "files w (os_path_abspath w generatedfile) = Some f"
    and "readable f"
    and "\<not> not_generated (rstrip (readline (readlines (content f)) 0))
              (rstrip (readline (readlines (content f)) 1))"
    and "\<not> startswith (last (readlines (content f))) TRANSLATION_TAGLINE
         \<or> \<not> startswith (last_line_of (readlines (content f))) TRANSLATION_TAGLINE"
  shows "fst (translation_is_needed repyfilename generatedfile w) = Inr True"
proof -
  have "\<not> startswith (last_line_of (readlines (content f))) TRANSLATION_TAGLINE"
    using assms(5) last_line_of_last by blast
  then show ?thesis
    using assms(1-4) by (simp add: fst_translation_is_needed verdict_def Let_def)
qed

section \<open>Where translate finds the source and puts the artifact\<close>

text \<open>
  Claim C6.  Lines 343 to 375 of \<^verbatim>\<open>translate\<close> are \<open>locate_source\<close>, lines 381 to 390 are
  \<open>generated_path\<close>.  A file name with a directory separator is used as it is, with the
  first entry of the search path as default output directory, and \<^verbatim>\<open>ValueError\<close> is
  raised when its directory or the file does not exist (on an empty search path
  \<^verbatim>\<open>sys.path[0]\<close> raises \<^verbatim>\<open>IndexError\<close> before either test).  A bare name is looked up in
  the search path in order: the first entry holding such a file gives the source and the
  default output directory, and \<^verbatim>\<open>ValueError\<close> is raised when there is none.  In both
  cases the cache directory, when set, replaces the default output directory.
\<close>

theorem translate_resolution:
  "fst (locate_source filename g w) =
     (if CHR ''/'' \<in> set filename then
        (case sys_path g of
           [] \<Rightarrow> Inl IndexError
         | first # others \<Rightarrow>
             if os_path_abspath w (os_path_abspath w (os_path_dirname filename)) \<notin> dirs w
               then Inl ValueError
             else if files w (os_path_abspath w filename) = None then Inl ValueError
             else Inr (filename, first))
      else
        (case List.find (\<lambda>d. files w (os_path_abspath w (os_path_join d filename)) \<noteq> None)
                (sys_path g) of
           None \<Rightarrow> Inl ValueError
         | Some d \<Rightarrow> Inr (os_path_join d filename, d)))
   \<and> generated_path filename destdir g =
       os_path_join (case importcachedir g of None \<Rightarrow> destdir | Some cachedir \<Rightarrow> cachedir)
         (replace_dots (os_path_basename filename) @ ''.py'')"
proof (rule conjI)
  show "generated_path filename destdir g =
       os_path_join (case importcachedir g of None \<Rightarrow> destdir | Some cachedir \<Rightarrow> cachedir)
         (replace_dots (os_path_basename filename) @ ''.py'')"
    by (simp add: generated_path_def Let_def get_module_name_basename)
next
  show "fst (locate_source filename g w) =
     (if CHR ''/'' \<in> set filename then
        (case sys_path g of
           [] \<Rightarrow> Inl IndexError
         | first # others \<Rightarrow>
             if os_path_abspath w (os_path_abspath w (os_path_dirname filename)) \<notin> dirs w
               then Inl ValueError
             else if files w (os_path_abspath w filename) = None then Inl ValueError
             else Inr (filename, first))
      else
        (case List.find (\<lambda>d. files w (os_path_abspath w (os_path_join d filename)) \<noteq> None)
                (sys_path g) of
           None \<Rightarrow> Inl ValueError
         | Some d \<Rightarrow> Inr (os_path_join d filename, d)))"
  proof (cases "CHR ''/'' \<in> set filename")
    case True
    then have "filename \<noteq> os_path_basename filename" using basename_eq_iff [of filename] by auto
    then show ?thesis using True
      by (auto simp: locate_source_def Let_def os_path_isdir_eq os_path_isfile_eq
            split: list.splits)
  next
    case False
    then have b: "filename = os_path_basename filename" using basename_eq_iff [of filename] by auto
    obtain r w1 where s: "search_sys_path (sys_path g) filename w = (r, w1)"
      by (cases "search_sys_path (sys_path g) filename w")
    have "r = map_option (\<lambda>d. (os_path_join d filename, d))
       (List.find (\<lambda>d. files w (os_path_abspath w (os_path_join d filename)) \<noteq> None) (sys_path g))"
      using fst_search_sys_path [of "sys_path g" filename w] s by simp
    then show ?thesis using False b s
      by (auto simp: locate_source_def split: option.splits)
  qed
qed

end
